theory Spec2Isabelle
  imports Main "HOL-Library.Sublist" "HOL-Library.AList"
begin

section \<open>Strings and POSIX paths\<close>

text \<open>
  The source manipulates paths as Python strings through \<^verbatim>\<open>os.path\<close>. The model fixes the
  POSIX flavour of that module (\<^verbatim>\<open>os.name != "nt"\<close>, \<^verbatim>\<open>os.sep == "/"\<close>): a path is a
  \<^typ>\<open>string\<close>, and each library function used by the source is a function on strings.
\<close>

definition sep :: string where
  "sep = ''/''"

definition startswith :: "string \<Rightarrow> string \<Rightarrow> bool" where
  "startswith s p = prefix p s"

definition endswith :: "string \<Rightarrow> string \<Rightarrow> bool" where
  "endswith s p = suffix p s"

text \<open>\<^verbatim>\<open>str.split(c)\<close>: the pieces between the occurrences of \<open>c\<close>; never empty.\<close>

fun split_on :: "char \<Rightarrow> string \<Rightarrow> string list" where
  "split_on c [] = [[]]"
| "split_on c (x # xs) =
     (if x = c then [] # split_on c xs
      else (case split_on c xs of [] \<Rightarrow> [[x]] | w # ws \<Rightarrow> (x # w) # ws))"

text \<open>
  \<^verbatim>\<open>str.splitlines()\<close> on ASCII text: a line ends at \<^verbatim>\<open>\n\<close>, \<^verbatim>\<open>\r\n\<close>, \<^verbatim>\<open>\r\<close> or one of the
  other ASCII line boundaries; the terminators are dropped and a final terminator opens
  no empty line.
\<close>

definition is_linebreak :: "char \<Rightarrow> bool" where
  "is_linebreak c = (c \<in> set [CHR 0x0A, CHR 0x0D, CHR 0x0B, CHR 0x0C, CHR 0x1C, CHR 0x1D, CHR 0x1E])"

fun splitlines_from :: "string \<Rightarrow> string \<Rightarrow> string list" where
  "splitlines_from cur [] = (if cur = [] then [] else [cur])"
| "splitlines_from cur [c] = (if is_linebreak c then [cur] else [cur @ [c]])"
| "splitlines_from cur (c # d # cs) =
     (if c = CHR 0x0D \<and> d = CHR 0x0A then cur # splitlines_from [] cs
      else if is_linebreak c then cur # splitlines_from [] (d # cs)
      else splitlines_from (cur @ [c]) (d # cs))"

definition splitlines :: "string \<Rightarrow> string list" where
  "splitlines s = splitlines_from [] s"

text \<open>The line feed.\<close>

definition LF :: string where
  "LF = [CHR 0x0A]"

text \<open>\<^verbatim>\<open>sub in s\<close> for byte strings, and \<^verbatim>\<open>str.strip()\<close> of ASCII white space.\<close>

definition contains :: "string \<Rightarrow> string \<Rightarrow> bool" where
  "contains s sub = list_ex (\<lambda>t. prefix sub t) (suffixes s)"

definition is_space :: "char \<Rightarrow> bool" where
  "is_space c = (c \<in> set [CHR '' '', CHR 0x09, CHR 0x0A, CHR 0x0B, CHR 0x0C, CHR 0x0D,
                           CHR 0x1C, CHR 0x1D, CHR 0x1E, CHR 0x1F])"

definition strip :: "string \<Rightarrow> string" where
  "strip s = rev (dropWhile is_space (rev (dropWhile is_space s)))"

text \<open>The exceptions the source raises or lets through, as values.\<close>

datatype error =
    InvalidWheelSource
  | UninstallError
  | StopIteration
  | ValueError
  | FileNotFoundError
  | FileExistsError
  | NotADirectoryError
  | IsADirectoryError
  | OSError
  | ShutilError
  | KeyError

text \<open>\<^verbatim>\<open>posixpath.normcase\<close> returns its argument unchanged.\<close>

definition normcase :: "string \<Rightarrow> string" where
  "normcase p = p"

definition is_sep :: "char \<Rightarrow> bool" where
  "is_sep c = (c = CHR ''/'')"

definition rstrip_sep :: "string \<Rightarrow> string" where
  "rstrip_sep s = rev (dropWhile is_sep (rev s))"

text \<open>
  \<^verbatim>\<open>posixpath.split\<close>: the tail is everything after the last slash; the head is everything
  up to it, with trailing slashes stripped unless the head consists of slashes only.
\<close>

definition path_split :: "string \<Rightarrow> string \<times> string" where
  "path_split p =
     (let tail = rev (takeWhile (\<lambda>c. \<not> is_sep c) (rev p));
          head = rev (dropWhile (\<lambda>c. \<not> is_sep c) (rev p))
      in (if head \<noteq> [] \<and> \<not> list_all is_sep head then rstrip_sep head else head, tail))"

definition dirname :: "string \<Rightarrow> string" where
  "dirname p = fst (path_split p)"

definition basename :: "string \<Rightarrow> string" where
  "basename p = snd (path_split p)"

text \<open>
  \<^verbatim>\<open>posixpath.join\<close>: a component that starts with a slash discards what came before;
  otherwise it is appended, after a slash unless the path so far is empty or ends in one.
\<close>

definition join2 :: "string \<Rightarrow> string \<Rightarrow> string" where
  "join2 a b =
     (if startswith b sep then b
      else if a = [] \<or> endswith a sep then a @ b
      else a @ sep @ b)"

definition join :: "string \<Rightarrow> string list \<Rightarrow> string" where
  "join a bs = foldl join2 a bs"

text \<open>\<^verbatim>\<open>sep.join(xs)\<close>.\<close>

fun str_join :: "string \<Rightarrow> string list \<Rightarrow> string" where
  "str_join s [] = []"
| "str_join s [x] = x"
| "str_join s (x # y # ys) = x @ s @ str_join s (y # ys)"

text \<open>
  \<^verbatim>\<open>posixpath.normpath\<close>: one or two leading slashes are kept (three or more count as
  one), empty components and \<^verbatim>\<open>.\<close> disappear, and \<^verbatim>\<open>..\<close> cancels the component before
  it where there is one.
\<close>

definition initial_slashes :: "string \<Rightarrow> nat" where
  "initial_slashes path =
     (if \<not> startswith path ''/'' then 0
      else if startswith path ''//'' \<and> \<not> startswith path ''///'' then 2
      else 1)"

definition normpath_step :: "nat \<Rightarrow> string list \<Rightarrow> string \<Rightarrow> string list" where
  "normpath_step slashes new_comps part =
     (if part = [] \<or> part = ''.'' then new_comps
      else if part \<noteq> ''..'' \<or> (slashes = 0 \<and> new_comps = [])
              \<or> (new_comps \<noteq> [] \<and> last new_comps = ''..'')
      then new_comps @ [part]
      else if new_comps \<noteq> [] then butlast new_comps
      else new_comps)"

definition normpath :: "string \<Rightarrow> string" where
  "normpath path =
     (if path = [] then ''.''
      else (let slashes = initial_slashes path;
                comps = foldl (normpath_step slashes) [] (split_on CHR ''/'' path);
                res = replicate slashes CHR ''/'' @ str_join ''/'' comps
            in if res = [] then ''.'' else res))"

definition isabs :: "string \<Rightarrow> bool" where
  "isabs p = startswith p sep"

text \<open>The working directory of the process (see the file system below).\<close>

definition getcwd :: string where
  "getcwd = ''/''"

definition abspath :: "string \<Rightarrow> string" where
  "abspath p = normpath (if isabs p then p else join2 getcwd p)"

text \<open>
  \<^verbatim>\<open>posixpath.expanduser\<close> with the home directory \<open>home\<close> of the current user; a
  \<^verbatim>\<open>~user\<close> prefix of another user is left as it is, as the library does for a user it
  cannot find.
\<close>

definition expanduser :: "string \<Rightarrow> string \<Rightarrow> string" where
  "expanduser home p =
     (if \<not> startswith p ''~'' then p
      else (let name = takeWhile (\<lambda>c. \<not> is_sep c) (tl p);
                rest = dropWhile (\<lambda>c. \<not> is_sep c) (tl p)
            in if name = [] then (if rstrip_sep home @ rest = [] then ''/'' else rstrip_sep home @ rest)
               else p))"

text \<open>
  \<^verbatim>\<open>posixpath.relpath(path, start)\<close>: both made absolute, the common leading components
  dropped, one \<^verbatim>\<open>..\<close> for each remaining component of \<open>start\<close>.
\<close>

fun common_prefix_length :: "string list \<Rightarrow> string list \<Rightarrow> nat" where
  "common_prefix_length (x # xs) (y # ys) = (if x = y then Suc (common_prefix_length xs ys) else 0)"
| "common_prefix_length _ _ = 0"

definition relpath :: "string \<Rightarrow> string \<Rightarrow> error + string" where
  "relpath path start =
     (if path = [] then Inl ValueError
      else (let start_list = filter (\<lambda>x. x \<noteq> []) (split_on CHR ''/'' (abspath start));
                path_list = filter (\<lambda>x. x \<noteq> []) (split_on CHR ''/'' (abspath path));
                i = common_prefix_length start_list path_list;
                rel_list = replicate (length start_list - i) ''..'' @ drop i path_list
            in case rel_list of [] \<Rightarrow> Inr ''.'' | x # xs \<Rightarrow> Inr (join x xs)))"

text \<open>
  \<^verbatim>\<open>pathlib.PurePosixPath(p).parts\<close>: the anchor (\<^verbatim>\<open>/\<close>, or \<^verbatim>\<open>//\<close> for exactly two leading
  slashes) when the path is absolute, then the components without the empty ones and
  \<^verbatim>\<open>.\<close>. \<^verbatim>\<open>relative_to\<close> raises \<^verbatim>\<open>ValueError\<close> unless the parts of the base lead the parts
  of the path.
\<close>

definition pure_parts :: "string \<Rightarrow> string list" where
  "pure_parts p =
     (if initial_slashes p = 0 then [] else [replicate (initial_slashes p) CHR ''/''])
     @ filter (\<lambda>c. c \<noteq> [] \<and> c \<noteq> ''.'') (split_on CHR ''/'' p)"

definition relative_to :: "string \<Rightarrow> string \<Rightarrow> error + string list" where
  "relative_to path base =
     (if prefix (pure_parts base) (pure_parts path)
      then Inr (drop (length (pure_parts base)) (pure_parts path))
      else Inl ValueError)"

section \<open>File system\<close>

text \<open>
  The file system is the shared external state of the source. It is modelled as a finite
  table from absolute locations (the list of directory names leading to an entry) to
  nodes: a regular file with its bytes, or a directory. The root directory \<open>[]\<close> always
  exists. Symbolic links, permissions and devices are outside the model, so
  \<^verbatim>\<open>os.path.islink\<close> is constantly false and a rename never crosses a device. The
  working directory of the process is the root.
\<close>

datatype node = File string | Dir

type_synonym filesystem = "(string list \<times> node) list"

text \<open>
  Path resolution as the kernel does it without symbolic links: empty components and
  \<^verbatim>\<open>.\<close> are skipped, \<^verbatim>\<open>..\<close> steps to the parent.
\<close>

definition key :: "string \<Rightarrow> string list" where
  "key p =
     foldl (\<lambda>acc c. if c = ''..'' then butlast acc else acc @ [c]) []
       (filter (\<lambda>c. c \<noteq> [] \<and> c \<noteq> ''.'') (split_on CHR ''/'' p))"

definition node_at :: "filesystem \<Rightarrow> string list \<Rightarrow> node option" where
  "node_at fs k = (if k = [] then Some Dir else map_of fs k)"

text \<open>
  \<^verbatim>\<open>os.stat\<close>: the empty path names nothing, and a path with a trailing slash names only
  a directory.
\<close>

definition stat :: "filesystem \<Rightarrow> string \<Rightarrow> node option" where
  "stat fs p =
     (if p = [] then None
      else (case node_at fs (key p) of
              Some (File c) \<Rightarrow> if endswith p sep then None else Some (File c)
            | r \<Rightarrow> r))"

definition exists :: "filesystem \<Rightarrow> string \<Rightarrow> bool" where
  "exists fs p = (stat fs p \<noteq> None)"

definition isdir :: "filesystem \<Rightarrow> string \<Rightarrow> bool" where
  "isdir fs p = (stat fs p = Some Dir)"

definition isfile :: "filesystem \<Rightarrow> string \<Rightarrow> bool" where
  "isfile fs p = (case stat fs p of Some (File c) \<Rightarrow> True | _ \<Rightarrow> False)"

definition islink :: "filesystem \<Rightarrow> string \<Rightarrow> bool" where
  "islink fs p = False"

text \<open>The entries directly inside the directory at \<open>k\<close>, as \<^verbatim>\<open>os.scandir\<close> lists them.\<close>

definition children :: "filesystem \<Rightarrow> string list \<Rightarrow> (string \<times> node) list" where
  "children fs k =
     map (\<lambda>(k', n). (last k', n)) (filter (\<lambda>(k', n). k' \<noteq> [] \<and> butlast k' = k) fs)"

definition subdir_names :: "filesystem \<Rightarrow> string list \<Rightarrow> string list" where
  "subdir_names fs k = map fst (filter (\<lambda>(name, n). n = Dir) (children fs k))"

definition file_names :: "filesystem \<Rightarrow> string list \<Rightarrow> string list" where
  "file_names fs k = map fst (filter (\<lambda>(name, n). n \<noteq> Dir) (children fs k))"

text \<open>
  The directories reachable from the directory at \<open>k\<close>: \<open>k\<close> itself and every directory
  entry below it all of whose intermediate locations are directories too.
\<close>

definition dirs_under :: "filesystem \<Rightarrow> string list \<Rightarrow> string list list" where
  "dirs_under fs k =
     k # map fst (filter (\<lambda>(k', n). n = Dir \<and> strict_prefix k k'
                      \<and> list_all (\<lambda>j. map_of fs (take j k') = Some Dir) [Suc (length k) ..< length k'])
                   fs)"

text \<open>
  \<^verbatim>\<open>os.walk(t)\<close> with its defaults: nothing when \<open>t\<close> cannot be listed; otherwise one
  triple (directory path, sub-directory names, file names) for \<open>t\<close> and for every
  directory below it, the directory path being \<open>t\<close> joined with the names on the way
  down.
\<close>

definition walk :: "filesystem \<Rightarrow> string \<Rightarrow> (string \<times> string list \<times> string list) list" where
  "walk fs t =
     (if isdir fs t
      then map (\<lambda>k'. (join t (drop (length (key t)) k'), subdir_names fs k', file_names fs k'))
             (dirs_under fs (key t))
      else [])"

subsection \<open>Operations that change the file system\<close>

text \<open>
  Each operation either fails with the library's exception and changes nothing, or
  returns the new file system.
\<close>

definition fs_remove :: "string list \<Rightarrow> filesystem \<Rightarrow> filesystem" where
  "fs_remove k fs = filter (\<lambda>(k', n). k' \<noteq> k) fs"

definition fs_put :: "string list \<Rightarrow> node \<Rightarrow> filesystem \<Rightarrow> filesystem" where
  "fs_put k n fs = fs_remove k fs @ [(k, n)]"

definition fs_remove_tree :: "string list \<Rightarrow> filesystem \<Rightarrow> filesystem" where
  "fs_remove_tree k fs = filter (\<lambda>(k', n). \<not> prefix k k') fs"

definition parent_is_dir :: "filesystem \<Rightarrow> string list \<Rightarrow> bool" where
  "parent_is_dir fs k = (k \<noteq> [] \<and> node_at fs (butlast k) = Some Dir)"

text \<open>\<^verbatim>\<open>open(p, "rb").read()\<close>.\<close>

definition read_bytes :: "filesystem \<Rightarrow> string \<Rightarrow> error + string" where
  "read_bytes fs p =
     (case stat fs p of
        None \<Rightarrow> Inl FileNotFoundError
      | Some Dir \<Rightarrow> Inl IsADirectoryError
      | Some (File c) \<Rightarrow> Inr c)"

text \<open>\<^verbatim>\<open>open(p, "wb")\<close> followed by one \<^verbatim>\<open>write\<close>: creates or truncates the file.\<close>

definition write_bytes :: "filesystem \<Rightarrow> string \<Rightarrow> string \<Rightarrow> error + filesystem" where
  "write_bytes fs p c =
     (if p = [] then Inl FileNotFoundError
      else if endswith p sep \<or> node_at fs (key p) = Some Dir then Inl IsADirectoryError
      else if \<not> parent_is_dir fs (key p) then Inl FileNotFoundError
      else Inr (fs_put (key p) (File c) fs))"

definition unlink :: "filesystem \<Rightarrow> string \<Rightarrow> error + filesystem" where
  "unlink fs p =
     (case stat fs p of
        None \<Rightarrow> Inl FileNotFoundError
      | Some Dir \<Rightarrow> Inl IsADirectoryError
      | Some (File c) \<Rightarrow> Inr (fs_remove (key p) fs))"

definition rmdir :: "filesystem \<Rightarrow> string \<Rightarrow> error + filesystem" where
  "rmdir fs p =
     (case stat fs p of
        None \<Rightarrow> Inl FileNotFoundError
      | Some (File c) \<Rightarrow> Inl NotADirectoryError
      | Some Dir \<Rightarrow>
          if key p = [] \<or> children fs (key p) \<noteq> [] then Inl OSError
          else Inr (fs_remove (key p) fs))"

text \<open>\<^verbatim>\<open>shutil.rmtree\<close> on a directory removes it with everything below.\<close>

definition rmtree :: "filesystem \<Rightarrow> string \<Rightarrow> error + filesystem" where
  "rmtree fs p =
     (case stat fs p of
        None \<Rightarrow> Inl FileNotFoundError
      | Some (File c) \<Rightarrow> Inl NotADirectoryError
      | Some Dir \<Rightarrow> if key p = [] then Inl OSError else Inr (fs_remove_tree (key p) fs))"

definition mkdir :: "filesystem \<Rightarrow> string \<Rightarrow> error + filesystem" where
  "mkdir fs p =
     (if p = [] then Inl FileNotFoundError
      else if node_at fs (key p) \<noteq> None then Inl FileExistsError
      else if \<not> parent_is_dir fs (key p) then Inl FileNotFoundError
      else Inr (fs_put (key p) Dir fs))"

text \<open>
  \<^verbatim>\<open>os.makedirs(p)\<close> without \<^verbatim>\<open>exist_ok\<close>: creates \<open>p\<close> and every missing directory on
  the way to it; fails when \<open>p\<close> exists or when a location on the way is a file.
\<close>

fun add_dirs :: "filesystem \<Rightarrow> string list list \<Rightarrow> filesystem" where
  "add_dirs fs [] = fs"
| "add_dirs fs (k # ks) =
     add_dirs (if node_at fs k = None then fs_put k Dir fs else fs) ks"

definition makedirs :: "filesystem \<Rightarrow> string \<Rightarrow> error + filesystem" where
  "makedirs fs p =
     (if p = [] then Inl FileNotFoundError
      else if node_at fs (key p) \<noteq> None then Inl FileExistsError
      else if list_ex (\<lambda>k. case node_at fs k of Some (File c) \<Rightarrow> True | _ \<Rightarrow> False) (prefixes (key p))
      then Inl NotADirectoryError
      else Inr (add_dirs fs (prefixes (key p))))"

text \<open>
  \<^verbatim>\<open>os.rename(src, dst)\<close> on one device: the entry at \<open>src\<close> and everything below it moves
  to \<open>dst\<close>. A file replaces a file, a directory replaces an empty directory; the parent
  of \<open>dst\<close> must exist and \<open>dst\<close> must not lie inside \<open>src\<close>.
\<close>

definition move_tree :: "string list \<Rightarrow> string list \<Rightarrow> filesystem \<Rightarrow> filesystem" where
  "move_tree ks kd fs =
     map (\<lambda>(k, n). if prefix ks k then (kd @ drop (length ks) k, n) else (k, n))
       (fs_remove kd fs)"

definition rename :: "filesystem \<Rightarrow> string \<Rightarrow> string \<Rightarrow> error + filesystem" where
  "rename fs src dst =
     (case stat fs src of
        None \<Rightarrow> Inl FileNotFoundError
      | Some n \<Rightarrow>
          if dst = [] then Inl FileNotFoundError
          else if key src = [] \<or> key dst = [] then Inl OSError
          else if \<not> parent_is_dir fs (key dst) then Inl FileNotFoundError
          else if key src = key dst then Inr fs
          else if prefix (key src) (key dst) then Inl OSError
          else (case (n, node_at fs (key dst)) of
                  (File c, Some Dir) \<Rightarrow> Inl IsADirectoryError
                | (File c, _) \<Rightarrow>
                    if endswith dst sep then Inl NotADirectoryError
                    else Inr (move_tree (key src) (key dst) fs)
                | (Dir, Some (File c)) \<Rightarrow> Inl NotADirectoryError
                | (Dir, Some Dir) \<Rightarrow>
                    if children fs (key dst) \<noteq> [] then Inl OSError
                    else Inr (move_tree (key src) (key dst) fs)
                | (Dir, None) \<Rightarrow> Inr (move_tree (key src) (key dst) fs)))"

text \<open>
  \<^verbatim>\<open>shutil.copy2\<close> of a regular file and \<^verbatim>\<open>shutil.copytree\<close> of a directory, the
  fall-backs of \<^verbatim>\<open>shutil.move\<close> when the rename is refused.
\<close>

definition copy2 :: "filesystem \<Rightarrow> string \<Rightarrow> string \<Rightarrow> error + filesystem" where
  "copy2 fs src dst =
     (case read_bytes fs src of
        Inl e \<Rightarrow> Inl e
      | Inr c \<Rightarrow> write_bytes fs (if isdir fs dst then join2 dst (basename src) else dst) c)"

definition copy_tree_entries :: "string list \<Rightarrow> string list \<Rightarrow> filesystem \<Rightarrow> filesystem" where
  "copy_tree_entries ks kd fs =
     fs @ map (\<lambda>(k, n). (kd @ drop (length ks) k, n)) (filter (\<lambda>(k, n). strict_prefix ks k) fs)"

definition copytree :: "filesystem \<Rightarrow> string \<Rightarrow> string \<Rightarrow> error + filesystem" where
  "copytree fs src dst =
     (if \<not> isdir fs src then Inl NotADirectoryError
      else (case makedirs fs dst of
              Inl e \<Rightarrow> Inl e
            | Inr fs' \<Rightarrow> Inr (copy_tree_entries (key src) (key dst) fs')))"

text \<open>
  \<^verbatim>\<open>shutil.move(src, dst)\<close>: into \<open>dst\<close> when \<open>dst\<close> is a directory, by rename when the
  rename succeeds, otherwise by copy and delete.
\<close>

definition shutil_basename :: "string \<Rightarrow> string" where
  "shutil_basename p = basename (rstrip_sep p)"

definition destinsrc :: "string \<Rightarrow> string \<Rightarrow> bool" where
  "destinsrc src dst =
     (let s = abspath src; d = abspath dst;
          s' = (if endswith s sep then s else s @ sep);
          d' = (if endswith d sep then d else d @ sep)
      in startswith d' s')"

definition move_to :: "filesystem \<Rightarrow> string \<Rightarrow> string \<Rightarrow> error + filesystem" where
  "move_to fs src real_dst =
     (case rename fs src real_dst of
        Inr fs' \<Rightarrow> Inr fs'
      | Inl e \<Rightarrow>
          if islink fs src then Inl e
          else if isdir fs src then
            (if destinsrc src real_dst then Inl ShutilError
             else (case copytree fs src real_dst of
                     Inl e' \<Rightarrow> Inl e'
                   | Inr fs' \<Rightarrow> rmtree fs' src))
          else (case copy2 fs src real_dst of
                  Inl e' \<Rightarrow> Inl e'
                | Inr fs' \<Rightarrow> unlink fs' src))"

definition move :: "filesystem \<Rightarrow> string \<Rightarrow> string \<Rightarrow> error + filesystem" where
  "move fs src dst =
     (if isdir fs dst then
        (if exists fs src \<and> key src = key dst then rename fs src dst
         else if exists fs (join2 dst (shutil_basename src)) then Inl ShutilError
         else move_to fs src (join2 dst (shutil_basename src)))
      else move_to fs src dst)"

text \<open>
  \<^verbatim>\<open>os.removedirs(p)\<close>: removes the directory \<open>p\<close>, which must succeed, and then every
  parent in turn until one cannot be removed. \<open>prune\<close> takes the location leaf first.
\<close>

fun prune :: "filesystem \<Rightarrow> string list \<Rightarrow> filesystem" where
  "prune fs [] = fs"
| "prune fs (c # rk) =
     (if node_at fs (rev (c # rk)) = Some Dir \<and> children fs (rev (c # rk)) = []
      then prune (fs_remove (rev (c # rk)) fs) rk
      else fs)"

definition removedirs :: "filesystem \<Rightarrow> string \<Rightarrow> error + filesystem" where
  "removedirs fs p =
     (case rmdir fs p of
        Inl e \<Rightarrow> Inl e
      | Inr fs' \<Rightarrow> Inr (prune fs' (rev (butlast (key p)))))"

text \<open>
  \<^verbatim>\<open>tempfile.TemporaryDirectory(suffix, prefix)\<close> creates a directory with a fresh random
  name under the temporary directory \<open>dir\<close>, trying names until one is free; the random
  names are the list \<open>names\<close>. \<^verbatim>\<open>cleanup\<close> removes the directory with its content and is
  silent when it is gone.
\<close>

fun mkdtemp :: "filesystem \<Rightarrow> string \<Rightarrow> string \<Rightarrow> string \<Rightarrow> string list
    \<Rightarrow> error + (string \<times> string list \<times> filesystem)" where
  "mkdtemp fs suf pre dir [] = Inl FileExistsError"
| "mkdtemp fs suf pre dir (name # names) =
     (case mkdir fs (join2 dir (pre @ name @ suf)) of
        Inr fs' \<Rightarrow> Inr (abspath (join2 dir (pre @ name @ suf)), names, fs')
      | Inl FileExistsError \<Rightarrow> mkdtemp fs suf pre dir names
      | Inl e \<Rightarrow> Inl e)"

definition cleanup :: "filesystem \<Rightarrow> string \<Rightarrow> filesystem" where
  "cleanup fs name = (case rmtree fs name of Inl e \<Rightarrow> fs | Inr fs' \<Rightarrow> fs')"

section \<open>Rename Compressor\<close>

text \<open>
  \<^verbatim>\<open>compress_for_rename\<close>. Python dictionaries keep insertion order and overwrite in
  place, which is \<^const>\<open>AList.update\<close>; Python sets are lists without duplicates. The
  source iterates the set of parent directories in an order the language leaves open before
  the stable sort by length; the model takes the order of first occurrence. The set
  \<^verbatim>\<open>all_subdirs\<close> of the source is computed and never read, so it has no counterpart.
\<close>

definition norm_join :: "string list \<Rightarrow> string" where
  "norm_join a = normcase (case a of [] \<Rightarrow> [] | x # xs \<Rightarrow> join x xs)"

definition make_case_map :: "string list \<Rightarrow> (string \<times> string) list" where
  "make_case_map paths = foldl (\<lambda>d p. AList.update (normcase p) p d) [] paths"

definition make_unchecked :: "(string \<times> string) list \<Rightarrow> string list" where
  "make_unchecked case_map =
     sort_key length (remdups (map (\<lambda>p. fst (path_split p)) (map snd case_map)))"

definition all_files_under :: "filesystem \<Rightarrow> string \<Rightarrow> string list" where
  "all_files_under fs root =
     concat (map (\<lambda>(dirname, subdirs, files). map (\<lambda>f. norm_join [root, dirname, f]) files)
               (walk fs root))"

definition already_handled :: "string list \<Rightarrow> string \<Rightarrow> bool" where
  "already_handled wildcards root = list_ex (\<lambda>w. startswith (normcase root) w) wildcards"

definition compress_step :: "filesystem \<Rightarrow> string list \<times> string list \<Rightarrow> string \<Rightarrow> string list \<times> string list" where
  "compress_step fs st root =
     (case st of (remaining, wildcards) \<Rightarrow>
        if already_handled wildcards root then (remaining, wildcards)
        else (let all_files = all_files_under fs root
              in if list_all (\<lambda>f. f \<in> set remaining) all_files
                 then (filter (\<lambda>r. r \<notin> set all_files) remaining, List.insert (root @ sep) wildcards)
                 else (remaining, wildcards)))"

fun compress_loop :: "filesystem \<Rightarrow> string list \<times> string list \<Rightarrow> string list \<Rightarrow> string list \<times> string list" where
  "compress_loop fs st [] = st"
| "compress_loop fs st (root # roots) = compress_loop fs (compress_step fs st root) roots"

text \<open>\<^verbatim>\<open>case_map.__getitem__\<close> raises \<^verbatim>\<open>KeyError\<close> on a missing key.\<close>

fun getitems :: "(string \<times> string) list \<Rightarrow> string list \<Rightarrow> error + string list" where
  "getitems d [] = Inr []"
| "getitems d (k # ks) =
     (case map_of d k of
        None \<Rightarrow> Inl KeyError
      | Some v \<Rightarrow> (case getitems d ks of Inl e \<Rightarrow> Inl e | Inr vs \<Rightarrow> Inr (v # vs)))"

definition compress_state :: "filesystem \<Rightarrow> string list \<Rightarrow> string list \<times> string list" where
  "compress_state fs paths =
     (let case_map = make_case_map paths
      in compress_loop fs (map fst case_map, []) (make_unchecked case_map))"

definition compress_for_rename :: "filesystem \<Rightarrow> string list \<Rightarrow> error + string list" where
  "compress_for_rename fs paths =
     (case compress_state fs paths of (remaining, wildcards) \<Rightarrow>
        (case getitems (make_case_map paths) remaining of
           Inl e \<Rightarrow> Inl e
         | Inr files \<Rightarrow> Inr (remdups (files @ wildcards))))"

text \<open>
  The two halves of the result before they are merged: the keys still listed one by one
  and the wildcards.
\<close>

definition listed_of :: "filesystem \<Rightarrow> string list \<Rightarrow> string list" where
  "listed_of fs paths = fst (compress_state fs paths)"

definition wildcards_of :: "filesystem \<Rightarrow> string list \<Rightarrow> string list" where
  "wildcards_of fs paths = snd (compress_state fs paths)"

text \<open>
  A dictionary whose keys are distinct and whose values equal their keys; with the POSIX
  \<^const>\<open>normcase\<close> the case map is one.
\<close>

definition diag :: "(string \<times> string) list \<Rightarrow> bool" where
  "diag d = (distinct (map fst d) \<and> list_all (\<lambda>(k, v). v = k) d)"

text \<open>Two file systems used as concrete inputs below.\<close>

definition fs_nested :: filesystem where
  "fs_nested = [([''a''], Dir), ([''a'', ''b''], Dir), ([''a'', ''b'', ''x''], File ''1'')]"

definition fs_extra :: filesystem where
  "fs_extra = [([''a''], Dir), ([''a'', ''b''], Dir), ([''a'', ''b'', ''x''], File ''1''),
               ([''a'', ''z''], File ''2'')]"

section \<open>Transactional Remover\<close>

text \<open>
  The scheme of the environment (\<^verbatim>\<open>envrionment.get_paths()\<close>) with the roots the source
  reads, and the installed distribution as \<^verbatim>\<open>pkg_resources\<close> presents it: its name and
  location, whether \<^verbatim>\<open>is_dist_editable\<close> holds, the file names of the rows of its
  \<^verbatim>\<open>RECORD\<close>, the listing of its \<^verbatim>\<open>scripts\<close> metadata directory when there is one, and
  the names of its console and GUI entry points.
\<close>

record env_paths =
  purelib :: string
  scripts :: string
  prefix_path :: string

record distribution =
  project_name :: string
  location :: string
  editable :: bool
  record_files :: "string list"
  scripts_metadata :: "string list option"
  console_scripts :: "string list"
  gui_scripts :: "string list"

text \<open>
  A row of the manifest, \<^verbatim>\<open>RecordEntry(path, hash, size)\<close>. The digest is kept symbolic:
  \<open>Hash c\<close> stands for the digest of the bytes \<open>c\<close>.
\<close>

datatype hash = Hash string

datatype record_entry = RecordEntry string "hash option" "nat option"

type_synonym scheme_dict = "(string \<times> string) list"

text \<open>
  The calls the installers make on the \<^verbatim>\<open>installer\<close> library, in the order they are
  made, each with the scheme dictionary of the destination it is made on:
  \<^verbatim>\<open>install(source, destination, additional_metadata)\<close> with the stem of the archive,
  \<^verbatim>\<open>destination.write_script(name, module, attr, section)\<close>,
  \<^verbatim>\<open>destination.write_file(scheme, path, stream)\<close> and
  \<^verbatim>\<open>destination.finalize_installation(scheme, record_file_path, records)\<close>.
\<close>

datatype call =
    LibInstall scheme_dict string "(string \<times> string) list"
  | WriteScript scheme_dict string string string string
  | WriteFile scheme_dict string string string
  | Finalize scheme_dict string string "record_entry list"

datatype level = Debug | Warn | Error

text \<open>
  Everything outside the remover that it reads or changes: the file system, the
  temporary directory with the supply of random names, the log, the referrer ledger of
  each shared cache entry, and the calls made on the \<^verbatim>\<open>installer\<close> library.
\<close>

record world =
  files :: filesystem
  home_dir :: string
  tmp_dir :: string
  tmp_names :: "string list"
  log :: "(level \<times> string) list"
  ledger :: "(string \<times> string list) list"
  calls :: "call list"

text \<open>
  The fields of \<^verbatim>\<open>StashedRemovePaths\<close> (the leading underscores of the source dropped).
  The attribute \<^verbatim>\<open>refer_to\<close> exists only once \<^verbatim>\<open>add_path\<close> has set it.
\<close>

record remover =
  dist :: distribution
  envrionment :: env_paths
  paths :: "string list"
  pth_entries :: "string list"
  refer_to :: "string option"
  pth_file :: string
  saved_pth :: "string option"
  stashed :: "(string \<times> string) list"
  tempdirs :: "(string \<times> string) list"

type_synonym outcome = "error option \<times> remover \<times> world"

definition PTH_REGISTRY :: string where
  "PTH_REGISTRY = ''easy-install.pth''"

definition new_remover :: "distribution \<Rightarrow> env_paths \<Rightarrow> remover" where
  "new_remover d e =
     \<lparr>dist = d, envrionment = e, paths = [], pth_entries = [], refer_to = None,
      pth_file = join2 (purelib e) PTH_REGISTRY, saved_pth = None, stashed = [], tempdirs = []\<rparr>"

definition logger :: "level \<Rightarrow> string \<Rightarrow> world \<Rightarrow> world" where
  "logger l msg w = w\<lparr>log := log w @ [(l, msg)]\<rparr>"

text \<open>
  \<^verbatim>\<open>_remove_pth\<close>. \<^verbatim>\<open>list.remove\<close> deletes the first occurrence and raises
  \<^verbatim>\<open>ValueError\<close> when there is none.
\<close>

fun remove_items :: "string list \<Rightarrow> string list \<Rightarrow> world \<Rightarrow> (error + string list) \<times> world" where
  "remove_items [] lines w = (Inr lines, w)"
| "remove_items (item # items) lines w =
     (let w' = logger Debug (''Removing pth entry: '' @ item) w
      in if item \<in> set lines then remove_items items (remove1 item lines) w'
         else (Inl ValueError, w'))"

definition remove_pth :: "remover \<Rightarrow> world \<Rightarrow> outcome" where
  "remove_pth r w =
     (if pth_entries r = [] then (None, r, w)
      else (case read_bytes (files w) (pth_file r) of
              Inl e \<Rightarrow> (Some e, r, w)
            | Inr saved \<Rightarrow>
                (let r' = r\<lparr>saved_pth := Some saved\<rparr>;
                     endline = (if contains saved [CHR 0x0D, CHR 0x0A] then [CHR 0x0D, CHR 0x0A]
                                else [CHR 0x0A])
                 in (case remove_items (pth_entries r) (splitlines saved) w of
                       (Inl e, w') \<Rightarrow> (Some e, r', w')
                     | (Inr lines, w') \<Rightarrow>
                         (case write_bytes (files w') (pth_file r) (str_join endline lines @ endline) of
                            Inl e \<Rightarrow> (Some e, r', w')
                          | Inr fs' \<Rightarrow> (None, r', w'\<lparr>files := fs'\<rparr>))))))"

text \<open>\<^verbatim>\<open>_get_file_root\<close>.\<close>

definition get_file_root :: "string \<Rightarrow> string \<Rightarrow> string option" where
  "get_file_root path base =
     (case relative_to path base of
        Inl e \<Rightarrow> None
      | Inr parts \<Rightarrow>
          Some (normcase (join2 base (case parts of x # y # zs \<Rightarrow> x | _ \<Rightarrow> []))))"

text \<open>
  \<^verbatim>\<open>renames\<close>. An exception leaves the changes made before it in place, so the file
  system is returned in both cases.
\<close>

definition renames :: "filesystem \<Rightarrow> string \<Rightarrow> string \<Rightarrow> error option \<times> filesystem" where
  "renames fs old new =
     (case (case path_split new of (head, tail) \<Rightarrow>
              if head \<noteq> [] \<and> tail \<noteq> [] \<and> \<not> exists fs head then makedirs fs head else Inr fs) of
        Inl e \<Rightarrow> (Some e, fs)
      | Inr fs1 \<Rightarrow>
          (case move fs1 old new of
             Inl e \<Rightarrow> (Some e, fs1)
           | Inr fs2 \<Rightarrow>
               (case path_split old of (head, tail) \<Rightarrow>
                  if head \<noteq> [] \<and> tail \<noteq> []
                  then (case removedirs fs2 head of Inl e \<Rightarrow> (None, fs2) | Inr fs3 \<Rightarrow> (None, fs3))
                  else (None, fs2))))"

text \<open>
  One iteration of the loop of \<^verbatim>\<open>_stash_files\<close>. The branches follow the source
  statement by statement; after the \<^verbatim>\<open>os.unlink\<close> of a \<^verbatim>\<open>.pyc\<close> file the source goes on
  with the statements below it.
\<close>

definition tempdir_for :: "remover \<Rightarrow> world \<Rightarrow> string \<Rightarrow> error + (string \<times> remover \<times> world)" where
  "tempdir_for r w root =
     (case map_of (tempdirs r) root of
        Some name \<Rightarrow> Inr (name, r, w)
      | None \<Rightarrow>
          (case mkdtemp (files w) ''-uninstall'' ''pdm-'' (tmp_dir w) (tmp_names w) of
             Inl e \<Rightarrow> Inl e
           | Inr (name, names, fs') \<Rightarrow>
               Inr (name, r\<lparr>tempdirs := AList.update root name (tempdirs r)\<rparr>,
                    w\<lparr>files := fs', tmp_names := names\<rparr>)))"

definition stash_one :: "remover \<Rightarrow> world \<Rightarrow> string \<Rightarrow> outcome" where
  "stash_one r w old_path =
     (if \<not> exists (files w) old_path then (None, r, w)
      else
        (let is_dir = (isdir (files w) old_path \<and> \<not> islink (files w) old_path);
             w1 = logger Debug (''Removing '' @ (if is_dir then ''directory'' else ''file'')
                                 @ '' '' @ old_path) w
         in (case (if endswith old_path ''.pyc'' then unlink (files w1) old_path
                   else Inr (files w1)) of
               Inl e \<Rightarrow> (Some e, r, w1)
             | Inr fs1 \<Rightarrow>
                 (let w2 = w1\<lparr>files := fs1\<rparr>
                  in (case get_file_root old_path (abspath (prefix_path (envrionment r))) of
                        None \<Rightarrow>
                          (None, r, logger Debug (''File path '' @ old_path
                                      @ '' is not under packages root, skip'') w2)
                      | Some root \<Rightarrow>
                          (case tempdir_for r w2 root of
                             Inl e \<Rightarrow> (Some e, r, w2)
                           | Inr (new_root, r3, w3) \<Rightarrow>
                               (case relpath old_path root of
                                  Inl e \<Rightarrow> (Some e, r3, w3)
                                | Inr rel \<Rightarrow>
                                    (let new_path = join2 new_root rel
                                     in (case (if is_dir \<and> isdir (files w3) new_path
                                               then rmdir (files w3) new_path
                                               else Inr (files w3)) of
                                           Inl e \<Rightarrow> (Some e, r3, w3)
                                         | Inr fs4 \<Rightarrow>
                                             (case renames fs4 old_path new_path of
                                                (Some e, fs5) \<Rightarrow> (Some e, r3, w3\<lparr>files := fs5\<rparr>)
                                              | (None, fs5) \<Rightarrow>
                                                  (None,
                                                   r3\<lparr>stashed := stashed r3 @ [(old_path, new_path)]\<rparr>,
                                                   w3\<lparr>files := fs5\<rparr>)))))))))))"

fun stash_loop :: "remover \<Rightarrow> world \<Rightarrow> string list \<Rightarrow> outcome" where
  "stash_loop r w [] = (None, r, w)"
| "stash_loop r w (old_path # rest) =
     (case stash_one r w old_path of
        (Some e, r', w') \<Rightarrow> (Some e, r', w')
      | (None, r', w') \<Rightarrow> stash_loop r' w' rest)"

definition stash_files :: "remover \<Rightarrow> world \<Rightarrow> outcome" where
  "stash_files r w =
     (case compress_for_rename (files w) (paths r) of
        Inl e \<Rightarrow> (Some e, r, w)
      | Inr paths_to_rename \<Rightarrow> stash_loop r w paths_to_rename)"

text \<open>\<^verbatim>\<open>StashedRemovePaths.remove\<close>, the stash step.\<close>

definition remove :: "remover \<Rightarrow> world \<Rightarrow> outcome" where
  "remove r w =
     (case remove_pth r w of
        (Some e, r', w') \<Rightarrow> (Some e, r', w')
      | (None, r', w') \<Rightarrow> stash_files r' w')"

text \<open>
  Modelled from the spec: \<^verbatim>\<open>CachedPackage.remove_referrer\<close> lives in
  \<^verbatim>\<open>pdm.installers.packages\<close>, which is not among the sources. The spec gives a shared
  cache entry a referrer ledger, a set of identifiers, from which \<^verbatim>\<open>remove-referrer\<close>
  takes one identifier away and to which \<^verbatim>\<open>add-referrer\<close> adds one.
\<close>

definition remove_referrer :: "string \<Rightarrow> string \<Rightarrow> world \<Rightarrow> world" where
  "remove_referrer cache ident w =
     w\<lparr>ledger := AList.update cache
                    (removeAll ident (case map_of (ledger w) cache of None \<Rightarrow> [] | Some l \<Rightarrow> l))
                    (ledger w)\<rparr>"

definition add_referrer :: "string \<Rightarrow> string \<Rightarrow> world \<Rightarrow> world" where
  "add_referrer cache ident w =
     w\<lparr>ledger := AList.update cache
                    (List.insert ident (case map_of (ledger w) cache of None \<Rightarrow> [] | Some l \<Rightarrow> l))
                    (ledger w)\<rparr>"

text \<open>\<^verbatim>\<open>StashedRemovePaths.commit\<close>.\<close>

definition commit :: "remover \<Rightarrow> world \<Rightarrow> outcome" where
  "commit r w =
     (let w1 = w\<lparr>files := foldl cleanup (files w) (map snd (tempdirs r))\<rparr>;
          r1 = r\<lparr>tempdirs := [], stashed := [], saved_pth := None\<rparr>
      in (case refer_to r of
            None \<Rightarrow> (None, r1, w1)
          | Some line \<Rightarrow>
              if line = [] then (None, r1, w1)
              else (None, r1,
                    remove_referrer line (dirname line)
                      (logger Debug (''Unlink from cached package '' @ line) w1))))"

text \<open>\<^verbatim>\<open>StashedRemovePaths.rollback\<close>.\<close>

definition rollback_one :: "filesystem \<Rightarrow> string \<times> string \<Rightarrow> error option \<times> filesystem" where
  "rollback_one fs pair =
     (case pair of (old_path, new_path) \<Rightarrow>
        (case (if isfile fs old_path \<or> islink fs old_path then unlink fs old_path
               else if isdir fs old_path then rmtree fs old_path
               else Inr fs) of
           Inl e \<Rightarrow> (Some e, fs)
         | Inr fs1 \<Rightarrow> renames fs1 new_path old_path))"

fun rollback_loop :: "world \<Rightarrow> (string \<times> string) list \<Rightarrow> error option \<times> world" where
  "rollback_loop w [] = (None, w)"
| "rollback_loop w ((old_path, new_path) # rest) =
     (case rollback_one (files w) (old_path, new_path) of
        (Some e, fs') \<Rightarrow>
          (Some e, (logger Debug (''Rollback '' @ old_path @ [CHR 0x0A] @ '' from '' @ new_path) w)
                     \<lparr>files := fs'\<rparr>)
      | (None, fs') \<Rightarrow>
          rollback_loop ((logger Debug (''Rollback '' @ old_path @ [CHR 0x0A] @ '' from '' @ new_path) w)
                           \<lparr>files := fs'\<rparr>) rest)"

definition rollback :: "remover \<Rightarrow> world \<Rightarrow> outcome" where
  "rollback r w =
     (if stashed r = [] then (None, r, logger Error ''Can't rollback, not uninstalled yet'' w)
      else (case (case saved_pth r of
                    None \<Rightarrow> Inr (files w)
                  | Some bytes \<Rightarrow> write_bytes (files w) (pth_file r) bytes) of
              Inl e \<Rightarrow> (Some e, r, w)
            | Inr fs1 \<Rightarrow>
                (case rollback_loop (w\<lparr>files := fs1\<rparr>) (stashed r) of
                   (Some e, w2) \<Rightarrow> (Some e, r, w2)
                 | (None, w2) \<Rightarrow> commit r w2)))"

section \<open>Removal Planner\<close>

text \<open>
  The platform is fixed: \<^verbatim>\<open>os.name\<close> is \<^verbatim>\<open>"posix"\<close>, so the branches of the source for
  \<^verbatim>\<open>"nt"\<close> are present and never taken.
\<close>

definition os_name :: string where
  "os_name = ''posix''"

text \<open>\<^verbatim>\<open>get_egg_link_path\<close>.\<close>

definition get_egg_link_path :: "filesystem \<Rightarrow> distribution \<Rightarrow> string \<Rightarrow> string option" where
  "get_egg_link_path fs d site_packages =
     (let egglink = join2 site_packages (project_name d) @ ''.egg-link''
      in if isfile fs egglink then Some egglink else None)"

text \<open>\<^verbatim>\<open>_script_names\<close>.\<close>

definition script_names :: "string \<Rightarrow> bool \<Rightarrow> string list" where
  "script_names script_name is_gui =
     script_name #
     (if os_name = ''nt''
      then [script_name @ ''.exe'', script_name @ ''.exe.manifest'',
            if is_gui then script_name @ ''-script.pyw'' else script_name @ ''-script.py'']
      else [])"

text \<open>
  \<^verbatim>\<open>_cache_file_from_source\<close>. \<^verbatim>\<open>py_file[:-3]\<close> drops the last three characters.
  \<^verbatim>\<open>glob.glob\<close> of the pattern \<^verbatim>\<open>cache_dir/stem.*.pyc\<close> lists the entries of \<open>cache_dir\<close>
  whose name is the stem, a dot, anything, and \<^verbatim>\<open>.pyc\<close>; the stem is taken literally.
\<close>

definition drop_last3 :: "string \<Rightarrow> string" where
  "drop_last3 s = take (length s - 3) s"

definition glob_pyc :: "filesystem \<Rightarrow> string \<Rightarrow> string \<Rightarrow> string list" where
  "glob_pyc fs cache_dir stem =
     (if isdir fs cache_dir
      then map (\<lambda>name. join2 cache_dir name)
             (filter (\<lambda>name. startswith name (stem @ ''.'') \<and> endswith name ''.pyc''
                              \<and> length stem + 5 \<le> length name)
                (map fst (children fs (key cache_dir))))
      else [])"

definition cache_file_from_source :: "filesystem \<Rightarrow> string \<Rightarrow> string list" where
  "cache_file_from_source fs py_file =
     (let py2_cache = drop_last3 py_file @ ''.pyc''
      in (if isfile fs py2_cache then [py2_cache] else [])
         @ (case path_split py_file of (parent, base) \<Rightarrow>
              glob_pyc fs (join2 parent ''__pycache__'') (drop_last3 base)))"

text \<open>\<^verbatim>\<open>posixpath.splitext\<close>: the extension starts at the last dot of the last component,
  unless only dots come before it there.\<close>

definition splitext :: "string \<Rightarrow> string \<times> string" where
  "splitext p =
     (let tail = rev (takeWhile (\<lambda>c. \<not> is_sep c) (rev p));
          ext = CHR ''.'' # rev (takeWhile (\<lambda>c. c \<noteq> CHR ''.'') (rev tail));
          stem = take (length tail - length ext) tail
      in if CHR ''.'' \<in> set tail \<and> list_ex (\<lambda>c. c \<noteq> CHR ''.'') stem
         then (take (length p - length ext) p, ext)
         else (p, []))"

text \<open>Adding to a Python set, kept as a list without duplicates.\<close>

definition set_add :: "string \<Rightarrow> string list \<Rightarrow> string list" where
  "set_add x xs = (if x \<in> set xs then xs else xs @ [x])"

definition set_update :: "string list \<Rightarrow> string list \<Rightarrow> string list" where
  "set_update xs ys = foldl (\<lambda>acc y. set_add y acc) xs ys"

text \<open>\<^verbatim>\<open>add_pth\<close> and \<^verbatim>\<open>add_path\<close>. \<^verbatim>\<open>readline\<close> on a binary file returns the bytes up to
  and including the first line feed.\<close>

definition add_pth :: "remover \<Rightarrow> string \<Rightarrow> remover" where
  "add_pth r line = r\<lparr>pth_entries := set_add line (pth_entries r)\<rparr>"

definition readline :: "string \<Rightarrow> string" where
  "readline c =
     takeWhile (\<lambda>ch. ch \<noteq> CHR 0x0A) c @ (if CHR 0x0A \<in> set c then [CHR 0x0A] else [])"

definition add_path :: "world \<Rightarrow> remover \<Rightarrow> string \<Rightarrow> error + remover" where
  "add_path w r path0 =
     (let path = normcase (expanduser (home_dir w) (abspath path0));
          r1 = r\<lparr>paths := set_add path (paths r)\<rparr>
      in if endswith path ''.py''
         then Inr (r1\<lparr>paths := set_update (paths r1) (cache_file_from_source (files w) path)\<rparr>)
         else if basename path = ''REFER_TO''
         then (case read_bytes (files w) path of
                 Inl e \<Rightarrow> Inl e
               | Inr c \<Rightarrow>
                   (let line = strip (readline c)
                    in if line \<noteq> [] then Inr (r1\<lparr>refer_to := Some line\<rparr>) else Inr r1))
         else Inr r1)"

fun add_all :: "world \<Rightarrow> remover \<Rightarrow> string list \<Rightarrow> error + remover" where
  "add_all w r [] = Inr r"
| "add_all w r (path # rest) =
     (case add_path w r path of Inl e \<Rightarrow> Inl e | Inr r' \<Rightarrow> add_all w r' rest)"

text \<open>
  \<^verbatim>\<open>from_dist\<close>. The three stages of the source are the link or \<^verbatim>\<open>RECORD\<close> stage, the
  \<^verbatim>\<open>scripts\<close> metadata stage and the entry-point stage. \<^verbatim>\<open>next(open(f))\<close> is the first line
  of a text file and raises \<^verbatim>\<open>StopIteration\<close> on an empty one. The planner only reads the
  file system; what it can change of the world is the log.
\<close>

definition first_line :: "string \<Rightarrow> error + string" where
  "first_line c =
     (if c = [] then Inl StopIteration
      else Inr (takeWhile (\<lambda>ch. ch \<noteq> CHR 0x0A \<and> ch \<noteq> CHR 0x0D) c))"

definition record_paths :: "distribution \<Rightarrow> string list" where
  "record_paths d =
     concat (map (\<lambda>filename.
               (let loc = join2 (location d) filename
                in loc # (case splitext loc of (bare_name, ext) \<Rightarrow>
                            if ext = ''.py'' then [bare_name @ ''.pyo''] else [])))
             (record_files d))"

definition link_stage :: "distribution \<Rightarrow> env_paths \<Rightarrow> world \<Rightarrow> remover \<Rightarrow> (error + remover) \<times> world" where
  "link_stage d e w instance =
     (if editable d then
        (case get_egg_link_path (files w) d (purelib e) of
           None \<Rightarrow>
             (Inr instance,
              logger Warn (''No egg link is found for editable distribution '' @ project_name d
                           @ '', do nothing.'') w)
         | Some egg_link_path \<Rightarrow>
             (case read_bytes (files w) egg_link_path of
                Inl err \<Rightarrow> (Inl err, w)
              | Inr c \<Rightarrow>
                  (case first_line c of
                     Inl err \<Rightarrow> (Inl err, w)
                   | Inr line \<Rightarrow>
                       (let link_pointer = normcase (strip line)
                        in if link_pointer \<noteq> location d then (Inl UninstallError, w)
                           else (case add_path w instance egg_link_path of
                                   Inl err \<Rightarrow> (Inl err, w)
                                 | Inr r \<Rightarrow> (Inr (add_pth r link_pointer), w))))))
      else (add_all w instance (record_paths d), w))"

definition script_paths :: "distribution \<Rightarrow> string \<Rightarrow> string list" where
  "script_paths d bin_dir =
     (case scripts_metadata d of
        None \<Rightarrow> []
      | Some listing \<Rightarrow>
          concat (map (\<lambda>script. join2 bin_dir script
                         # (if os_name = ''nt'' then [join2 bin_dir script @ ''.bat''] else []))
                      listing))"

definition scripts_to_remove :: "distribution \<Rightarrow> string list" where
  "scripts_to_remove d =
     concat (map (\<lambda>name. script_names name False) (console_scripts d))
     @ concat (map (\<lambda>name. script_names name True) (gui_scripts d))"

definition from_dist :: "distribution \<Rightarrow> env_paths \<Rightarrow> world \<Rightarrow> (error + remover) \<times> world" where
  "from_dist d e w =
     (case link_stage d e w (new_remover d e) of
        (Inl err, w') \<Rightarrow> (Inl err, w')
      | (Inr r, w') \<Rightarrow>
          (add_all w' r (script_paths d (scripts e)
                         @ map (\<lambda>s. join2 (scripts e) s) (scripts_to_remove d)),
           w'))"

section \<open>Archive Reader\<close>

text \<open>
  \<^verbatim>\<open>WheelFile.dist_info_dir\<close>: \<open>namelist\<close> is \<^verbatim>\<open>self._zipfile.namelist()\<close>, the entry
  names of the archive in archive order. \<^verbatim>\<open>next\<close> takes the first element of the
  generator; an exhausted generator raises \<^verbatim>\<open>StopIteration\<close>, which the source turns into
  \<^verbatim>\<open>InvalidWheelSource\<close>.
\<close>

definition top_level :: "string \<Rightarrow> string" where
  "top_level name = (case split_on CHR ''/'' name of [] \<Rightarrow> [] | w # _ \<Rightarrow> w)"

definition is_dist_info :: "string \<Rightarrow> bool" where
  "is_dist_info name = endswith (top_level name) ''.dist-info''"

definition dist_info_dir :: "string list \<Rightarrow> error + string" where
  "dist_info_dir namelist =
     (case filter is_dist_info namelist of
        [] \<Rightarrow> Inl InvalidWheelSource
      | name # _ \<Rightarrow> Inr (top_level name))"

section \<open>Scheme Destination\<close>

text \<open>
  A \<^verbatim>\<open>pathlib.Path\<close> is normalised when it is built (no trailing slash, no empty or dot
  component), so what it names is decided by its location alone. \<^verbatim>\<open>Path(a, b)\<close> names the
  location of \<^verbatim>\<open>os.path.join(a, b)\<close>.
\<close>

definition path_exists :: "filesystem \<Rightarrow> string \<Rightarrow> bool" where
  "path_exists fs p = (node_at fs (key p) \<noteq> None)"

definition path_is_dir :: "filesystem \<Rightarrow> string \<Rightarrow> bool" where
  "path_is_dir fs p = (node_at fs (key p) = Some Dir)"

definition path_unlink :: "filesystem \<Rightarrow> string \<Rightarrow> error + filesystem" where
  "path_unlink fs p =
     (case node_at fs (key p) of
        None \<Rightarrow> Inl FileNotFoundError
      | Some Dir \<Rightarrow> Inl IsADirectoryError
      | Some (File c) \<Rightarrow> Inr (fs_remove (key p) fs))"

text \<open>\<^verbatim>\<open>Path.mkdir(exist_ok=True)\<close>: an existing directory is accepted.\<close>

definition path_mkdir_exist_ok :: "filesystem \<Rightarrow> string \<Rightarrow> error + filesystem" where
  "path_mkdir_exist_ok fs p =
     (case node_at fs (key p) of
        Some Dir \<Rightarrow> Inr fs
      | Some (File c) \<Rightarrow> Inl FileExistsError
      | None \<Rightarrow> if parent_is_dir fs (key p) then Inr (fs_put (key p) Dir fs)
                else Inl FileNotFoundError)"

text \<open>
  \<^verbatim>\<open>SchemeDictionaryDestination.write_to_fs\<close> of the \<^verbatim>\<open>installer\<close> library, the method the
  source overrides and calls through \<^verbatim>\<open>super()\<close>: it refuses an existing target, creates
  the missing parent directories, writes the stream and returns the manifest row.
\<close>

definition super_write_to_fs :: "scheme_dict \<Rightarrow> filesystem \<Rightarrow> string \<Rightarrow> string \<Rightarrow> string
    \<Rightarrow> error + (record_entry \<times> filesystem)" where
  "super_write_to_fs sd fs scheme path0 stream =
     (case map_of sd scheme of
        None \<Rightarrow> Inl KeyError
      | Some root \<Rightarrow>
          (let target_path = join2 root path0
           in if exists fs target_path then Inl FileExistsError
              else (case (if \<not> exists fs (dirname target_path)
                          then makedirs fs (dirname target_path) else Inr fs) of
                      Inl e \<Rightarrow> Inl e
                    | Inr fs1 \<Rightarrow>
                        (case write_bytes fs1 target_path stream of
                           Inl e \<Rightarrow> Inl e
                         | Inr fs2 \<Rightarrow>
                             Inr (RecordEntry path0 (Some (Hash stream)) (Some (length stream)),
                                  fs2)))))"

text \<open>\<^verbatim>\<open>InstallDestination.write_to_fs\<close>.\<close>

definition write_to_fs :: "scheme_dict \<Rightarrow> filesystem \<Rightarrow> string \<Rightarrow> string \<Rightarrow> string
    \<Rightarrow> error + (record_entry \<times> filesystem)" where
  "write_to_fs sd fs scheme path0 stream =
     (case map_of sd scheme of
        None \<Rightarrow> Inl KeyError
      | Some root \<Rightarrow>
          (let target_path = join2 root path0
           in (case (if path_exists fs target_path then path_unlink fs target_path else Inr fs) of
                 Inl e \<Rightarrow> Inl e
               | Inr fs1 \<Rightarrow> super_write_to_fs sd fs1 scheme path0 stream)))"

text \<open>The number of entries the file system holds at the location of a path.\<close>

definition entries_at :: "filesystem \<Rightarrow> string \<Rightarrow> nat" where
  "entries_at fs p = length (filter (\<lambda>(k, n). k = key p) fs)"

section \<open>Direct and Cached Installer\<close>

text \<open>
  The archive as \<^verbatim>\<open>WheelFile\<close> presents it: the stem of its file name, the entry names of
  the zip file, the pairs (path, bytes) of \<^verbatim>\<open>get_contents()\<close>, the root scheme
  \<^verbatim>\<open>_process_WHEEL_file\<close> reads from its tags, the parsed entry points when it has an
  \<^verbatim>\<open>entry_points.txt\<close>, and \<^verbatim>\<open>_determine_scheme\<close> for its paths. The last three are
  functions of the \<^verbatim>\<open>installer\<close> library and are taken as given.
\<close>

record wheel_source =
  wheel_stem :: string
  namelist :: "string list"
  contents :: "(string \<times> string) list"
  root_scheme :: "error + string"
  entrypoints :: "(string \<times> string \<times> string \<times> string) list option"
  determine_scheme :: "string \<Rightarrow> error + (string \<times> string)"

text \<open>
  The candidate: its archive, \<^verbatim>\<open>normalize_name(candidate.name)\<close>, the scheme of its
  environment, the directory \<^verbatim>\<open>project.cache("packages")\<close>, and the version string of the
  \<^verbatim>\<open>installer\<close> library written into the \<^verbatim>\<open>INSTALLER\<close> file.
\<close>

record candidate =
  wheel :: wheel_source
  normalized_name :: string
  env_scheme :: scheme_dict
  cache_packages :: string
  installer_version :: string

text \<open>
  Modelled from the spec: \<^verbatim>\<open>CachedPackage\<close> lives in \<^verbatim>\<open>pdm.installers.packages\<close>, which is
  not among the sources. The spec says that \<^verbatim>\<open>scheme()\<close> returns a scheme confined to the
  cache entry's own directory tree; the names of the sub-directories are a choice of the
  model.
\<close>

record cached_package =
  cache_path :: string
  cache_scheme :: scheme_dict

definition CachedPackage :: "string \<Rightarrow> cached_package" where
  "CachedPackage p =
     \<lparr>cache_path = p,
      cache_scheme =
        [(''purelib'', join2 p ''lib''), (''platlib'', join2 p ''lib''),
         (''scripts'', join2 p ''bin''), (''data'', p), (''headers'', join2 p ''include''),
         (''prefix'', p)]\<rparr>"

definition record_call :: "call \<Rightarrow> world \<Rightarrow> world" where
  "record_call c w = w\<lparr>calls := calls w @ [c]\<rparr>"

text \<open>
  \<^verbatim>\<open>install_wheel\<close>: a falsy \<open>scheme\<close> (\<^verbatim>\<open>None\<close> or the empty dictionary) selects the
  scheme of the environment. The library's \<^verbatim>\<open>install\<close> starts by reading
  \<^verbatim>\<open>source.dist_info_dir\<close>, which the source overrides.
\<close>

definition install_wheel :: "candidate \<Rightarrow> scheme_dict option \<Rightarrow> world \<Rightarrow> error option \<times> world" where
  "install_wheel c scheme w =
     (let sd = (case scheme of None \<Rightarrow> env_scheme c
                | Some d \<Rightarrow> if d = [] then env_scheme c else d)
      in (case dist_info_dir (namelist (wheel c)) of
            Inl e \<Rightarrow> (Some e, w)
          | Inr d \<Rightarrow>
              (None, record_call
                       (LibInstall sd (wheel_stem (wheel c))
                          [(''INSTALLER'', ''installer '' @ installer_version c)]) w)))"

text \<open>
  \<^verbatim>\<open>_install_from_cache\<close>. The loop over the contents copies an entry when its path is not
  the manifest and either ends in \<^verbatim>\<open>.pth\<close> or starts with the name of the metadata
  directory. The row \<^verbatim>\<open>write_script\<close> returns is assigned and not appended to
  \<^verbatim>\<open>written_records\<close>.
\<close>

definition write_file_row :: "string \<Rightarrow> string \<Rightarrow> record_entry" where
  "write_file_row path0 stream = RecordEntry path0 (Some (Hash stream)) (Some (length stream))"

definition is_copied :: "string \<Rightarrow> string \<Rightarrow> string \<Rightarrow> bool" where
  "is_copied dist_info record_file_path path0 =
     (\<not> (path0 = record_file_path
         \<or> \<not> (endswith path0 ''.pth'' \<or> startswith path0 dist_info)))"

fun copy_loop :: "scheme_dict \<Rightarrow> wheel_source \<Rightarrow> string \<Rightarrow> string \<Rightarrow> (string \<times> string) list
    \<Rightarrow> record_entry list \<Rightarrow> world \<Rightarrow> error option \<times> record_entry list \<times> world" where
  "copy_loop sd src dist_info record_file_path [] written w = (None, written, w)"
| "copy_loop sd src dist_info record_file_path ((path0, stream) # rest) written w =
     (if \<not> is_copied dist_info record_file_path path0
      then copy_loop sd src dist_info record_file_path rest written w
      else (case determine_scheme src path0 of
              Inl e \<Rightarrow> (Some e, written, w)
            | Inr (scheme, destination_path) \<Rightarrow>
                copy_loop sd src dist_info record_file_path rest
                  (written @ [write_file_row destination_path stream])
                  (record_call (WriteFile sd scheme destination_path stream) w)))"

definition write_scripts :: "scheme_dict \<Rightarrow> wheel_source \<Rightarrow> world \<Rightarrow> world" where
  "write_scripts sd src w =
     (case entrypoints src of
        None \<Rightarrow> w
      | Some eps \<Rightarrow>
          foldl (\<lambda>w' ep. case ep of (name, module, attr, section) \<Rightarrow>
                   record_call (WriteScript sd name module attr section) w') w eps)"

definition additional_metadata :: "candidate \<Rightarrow> cached_package \<Rightarrow> (string \<times> string) list" where
  "additional_metadata c package_cache =
     [(''INSTALLER'', ''installer '' @ installer_version c),
      (''REFER_TO'', cache_path package_cache)]"

fun metadata_loop :: "scheme_dict \<Rightarrow> string \<Rightarrow> string \<Rightarrow> (string \<times> string) list
    \<Rightarrow> record_entry list \<Rightarrow> world \<Rightarrow> record_entry list \<times> world" where
  "metadata_loop sd root dist_info [] written w = (written, w)"
| "metadata_loop sd root dist_info ((filename, cont) # rest) written w =
     metadata_loop sd root dist_info rest
       (written @ [write_file_row (join2 dist_info filename) cont])
       (record_call (WriteFile sd root (join2 dist_info filename) cont) w)"

definition pointer_name :: "candidate \<Rightarrow> string" where
  "pointer_name c = normalized_name c @ ''.pth''"

definition pointer_content :: "cached_package \<Rightarrow> error + string" where
  "pointer_content package_cache =
     (case map_of (cache_scheme package_cache) ''purelib'' of
        None \<Rightarrow> Inl KeyError
      | Some lib_path \<Rightarrow> Inr (lib_path @ LF))"

definition install_from_cache :: "candidate \<Rightarrow> cached_package \<Rightarrow> world \<Rightarrow> error option \<times> world" where
  "install_from_cache c package_cache w =
     (let sd = env_scheme c; src = wheel c
      in (case root_scheme src of
            Inl e \<Rightarrow> (Some e, w)
          | Inr root \<Rightarrow>
              (case dist_info_dir (namelist src) of
                 Inl e \<Rightarrow> (Some e, w)
               | Inr dist_info \<Rightarrow>
                   (let record_file_path = join2 dist_info ''RECORD'';
                        w1 = write_scripts sd src w
                    in (case copy_loop sd src dist_info record_file_path (contents src) [] w1 of
                          (Some e, written, w2) \<Rightarrow> (Some e, w2)
                        | (None, written, w2) \<Rightarrow>
                            (case pointer_content package_cache of
                               Inl e \<Rightarrow> (Some e, w2)
                             | Inr pointer \<Rightarrow>
                                 (let w3 = record_call (WriteFile sd root (pointer_name c) pointer) w2;
                                      written3 = written @ [write_file_row (pointer_name c) pointer]
                                  in (case metadata_loop sd root dist_info
                                             (additional_metadata c package_cache) written3 w3 of
                                        (written4, w4) \<Rightarrow>
                                          (None,
                                           add_referrer (cache_path package_cache) dist_info
                                             (record_call
                                                (Finalize sd root record_file_path
                                                   (written4 @ [RecordEntry record_file_path None None]))
                                                w4))))))))))"

text \<open>\<^verbatim>\<open>install_wheel_with_cache\<close>. The argument \<open>scheme\<close> of the source is not used by it.\<close>

definition cache_path_of :: "candidate \<Rightarrow> string" where
  "cache_path_of c = join2 (cache_packages c) (wheel_stem (wheel c))"

definition install_wheel_with_cache :: "candidate \<Rightarrow> scheme_dict option \<Rightarrow> world \<Rightarrow> error option \<times> world" where
  "install_wheel_with_cache c scheme w =
     (let package_cache = CachedPackage (cache_path_of c)
      in if \<not> path_is_dir (files w) (cache_path_of c)
         then (let w1 = logger Debug (''Installing wheel into cached location '' @ cache_path_of c) w
               in (case path_mkdir_exist_ok (files w1) (cache_path_of c) of
                     Inl e \<Rightarrow> (Some e, w1)
                   | Inr fs' \<Rightarrow>
                       (case install_wheel c (Some (cache_scheme package_cache)) (w1\<lparr>files := fs'\<rparr>) of
                          (Some e, w2) \<Rightarrow> (Some e, w2)
                        | (None, w2) \<Rightarrow> install_from_cache c package_cache w2)))
         else install_from_cache c package_cache w)"

text \<open>Installing the same archive into several environments, one after the other.\<close>

fun install_all :: "candidate list \<Rightarrow> world \<Rightarrow> error option \<times> world" where
  "install_all [] w = (None, w)"
| "install_all (c # cs) w =
     (case install_wheel_with_cache c None w of
        (Some e, w') \<Rightarrow> (Some e, w')
      | (None, w') \<Rightarrow> install_all cs w')"

definition is_lib_install :: "call \<Rightarrow> bool" where
  "is_lib_install c = (case c of LibInstall sd stem md \<Rightarrow> True | _ \<Rightarrow> False)"

text \<open>
  The calls of the copy loop and of the script loop in closed form, and the views of the
  call list the properties below are stated on: the calls a step adds, the calls of the
  library's \<^verbatim>\<open>install\<close>, the \<^verbatim>\<open>write_file\<close> calls, and the \<^verbatim>\<open>write_file\<close> calls for a
  path ending in \<^verbatim>\<open>.pth\<close>.
\<close>

fun copy_calls :: "scheme_dict \<Rightarrow> wheel_source \<Rightarrow> string \<Rightarrow> string \<Rightarrow> (string \<times> string) list
    \<Rightarrow> call list" where
  "copy_calls sd src dist_info record_file_path [] = []"
| "copy_calls sd src dist_info record_file_path ((path0, stream) # rest) =
     (if \<not> is_copied dist_info record_file_path path0
      then copy_calls sd src dist_info record_file_path rest
      else (case determine_scheme src path0 of
              Inl e \<Rightarrow> []
            | Inr (scheme, destination_path) \<Rightarrow>
                WriteFile sd scheme destination_path stream
                # copy_calls sd src dist_info record_file_path rest))"

definition script_calls :: "scheme_dict \<Rightarrow> wheel_source \<Rightarrow> call list" where
  "script_calls sd src =
     (case entrypoints src of
        None \<Rightarrow> []
      | Some eps \<Rightarrow>
          map (\<lambda>(name, module, attr, section). WriteScript sd name module attr section) eps)"

definition new_calls :: "world \<Rightarrow> world \<Rightarrow> call list" where
  "new_calls w w' = drop (length (calls w)) (calls w')"

definition lib_installs :: "world \<Rightarrow> call list" where
  "lib_installs w = filter is_lib_install (calls w)"

definition is_write_file :: "call \<Rightarrow> bool" where
  "is_write_file c = (case c of WriteFile sd scheme path0 stream \<Rightarrow> True | _ \<Rightarrow> False)"

definition is_pth_write :: "call \<Rightarrow> bool" where
  "is_pth_write c =
     (case c of WriteFile sd scheme path0 stream \<Rightarrow> endswith path0 ''.pth'' | _ \<Rightarrow> False)"

text \<open>
  The one call of the library's \<^verbatim>\<open>install\<close> that \<^verbatim>\<open>install_wheel_with_cache\<close> can make
  for a candidate, into the scheme of the cache entry; and the calls that make up the
  footprint of a link install in the candidate's environment: a generated script, the
  manifest, the pointer file, the two metadata files, or the copy of an archive entry whose
  path ends in \<^verbatim>\<open>.pth\<close> or starts with the name of the metadata directory.
\<close>

definition the_install :: "candidate \<Rightarrow> call" where
  "the_install c =
     LibInstall (cache_scheme (CachedPackage (cache_path_of c))) (wheel_stem (wheel c))
       [(''INSTALLER'', ''installer '' @ installer_version c)]"

definition footprint_call :: "candidate \<Rightarrow> call \<Rightarrow> bool" where
  "footprint_call c call =
     (case dist_info_dir (namelist (wheel c)) of
        Inl e \<Rightarrow> False
      | Inr di \<Rightarrow>
          (case call of
             LibInstall sd stem md \<Rightarrow> False
           | WriteScript sd name module attr section \<Rightarrow> sd = env_scheme c
           | Finalize sd scheme record_file_path records \<Rightarrow> sd = env_scheme c
           | WriteFile sd scheme path0 stream \<Rightarrow>
               sd = env_scheme c
               \<and> (path0 = pointer_name c \<or> path0 = join2 di ''INSTALLER''
                  \<or> path0 = join2 di ''REFER_TO''
                  \<or> list_ex (\<lambda>(p, s). (endswith p ''.pth'' \<or> startswith p di) \<and> s = stream
                                \<and> determine_scheme (wheel c) p = Inr (scheme, path0))
                       (contents (wheel c)))))"

section \<open>Concrete environments\<close>

text \<open>
  The inputs at which the remover and the planner are run below. In \<open>world_example\<close> the
  distribution \<^verbatim>\<open>bar\<close> is installed under \<^verbatim>\<open>/env/lib\<close> with a legacy byte-code file next
  to its source; \<^verbatim>\<open>keep.txt\<close> belongs to nobody. In \<open>world_link\<close> the distribution
  \<^verbatim>\<open>foo\<close> is a link install whose pointer file names \<^verbatim>\<open>/src/foo\<close>, in an environment
  whose pure-library root lies outside its prefix.
\<close>

definition env_example :: env_paths where
  "env_example = \<lparr>purelib = ''/env/lib'', scripts = ''/env/bin'', prefix_path = ''/env''\<rparr>"

definition dist_example :: distribution where
  "dist_example =
     \<lparr>project_name = ''bar'', location = ''/env/lib'', editable = False,
      record_files = [''bar.py''], scripts_metadata = None, console_scripts = [],
      gui_scripts = []\<rparr>"

definition fs_example :: filesystem where
  "fs_example =
     [([''env''], Dir), ([''env'', ''lib''], Dir),
      ([''env'', ''lib'', ''easy-install.pth''], File (''/src/foo'' @ LF @ ''/other'' @ LF)),
      ([''env'', ''lib'', ''bar.py''], File ''source''),
      ([''env'', ''lib'', ''bar.pyc''], File ''bytecode''),
      ([''env'', ''lib'', ''keep.txt''], File ''keep''),
      ([''tmp''], Dir)]"

definition world_example :: world where
  "world_example =
     \<lparr>files = fs_example, home_dir = ''/root'', tmp_dir = ''/tmp'',
      tmp_names = [''aaaa'', ''bbbb''], log = [], ledger = [], calls = []\<rparr>"

definition env_split :: env_paths where
  "env_split = \<lparr>purelib = ''/site'', scripts = ''/env/bin'', prefix_path = ''/env''\<rparr>"

definition dist_link :: distribution where
  "dist_link =
     \<lparr>project_name = ''foo'', location = ''/src/foo'', editable = True,
      record_files = [], scripts_metadata = None, console_scripts = [], gui_scripts = []\<rparr>"

definition fs_link :: filesystem where
  "fs_link =
     [([''env''], Dir), ([''site''], Dir),
      ([''site'', ''foo.egg-link''], File (''/src/foo'' @ LF @ ''.'')),
      ([''site'', ''easy-install.pth''], File (''/src/foo'' @ LF @ ''/other'' @ LF)),
      ([''tmp''], Dir)]"

definition world_link :: world where
  "world_link =
     \<lparr>files = fs_link, home_dir = ''/root'', tmp_dir = ''/tmp'',
      tmp_names = [''aaaa'', ''bbbb''], log = [], ledger = [], calls = []\<rparr>"

text \<open>The same link install after the source tree has moved: the distribution is now
  recorded at \<^verbatim>\<open>/src/foo2\<close> while the pointer file still names \<^verbatim>\<open>/src/foo\<close>.\<close>

definition dist_moved :: distribution where
  "dist_moved = dist_link\<lparr>location := ''/src/foo2''\<rparr>"

text \<open>
  The archive \<^verbatim>\<open>foo-1.0-py3-none-any.whl\<close> with one module, one \<^verbatim>\<open>.pth\<close> file of its own
  and its metadata directory; a second archive that differs in declaring the
  platform-library root; and two environments that share one package cache, in which the
  entry of the archive does not exist yet.
\<close>

definition wheel_example :: wheel_source where
  "wheel_example =
     \<lparr>wheel_stem = ''foo-1.0-py3-none-any'',
      namelist = [''foo/__init__.py'', ''foo_extra.pth'', ''foo-1.0.dist-info/METADATA'',
                  ''foo-1.0.dist-info/RECORD''],
      contents = [(''foo/__init__.py'', ''payload''), (''foo_extra.pth'', ''/opt/extra'' @ LF),
                  (''foo-1.0.dist-info/METADATA'', ''Name: foo''),
                  (''foo-1.0.dist-info/RECORD'', [])],
      root_scheme = Inr ''purelib'',
      entrypoints = Some [(''foo-cli'', ''foo.cli'', ''main'', ''console'')],
      determine_scheme = (\<lambda>p. Inr (''purelib'', p))\<rparr>"

definition wheel_platlib :: wheel_source where
  "wheel_platlib =
     \<lparr>wheel_stem = ''foo-1.0-cp39-cp39-linux_x86_64'',
      namelist = [''foo/__init__.py'', ''foo-1.0.dist-info/METADATA'', ''foo-1.0.dist-info/RECORD''],
      contents = [(''foo/__init__.py'', ''payload''), (''foo-1.0.dist-info/METADATA'', ''Name: foo''),
                  (''foo-1.0.dist-info/RECORD'', [])],
      root_scheme = Inr ''platlib'',
      entrypoints = None,
      determine_scheme = (\<lambda>p. Inr (''platlib'', p))\<rparr>"

definition scheme_a :: scheme_dict where
  "scheme_a = [(''purelib'', ''/a/lib''), (''platlib'', ''/a/lib64''), (''scripts'', ''/a/bin'')]"

definition scheme_b :: scheme_dict where
  "scheme_b = [(''purelib'', ''/b/lib''), (''platlib'', ''/b/lib64''), (''scripts'', ''/b/bin'')]"

definition cand_a :: candidate where
  "cand_a =
     \<lparr>wheel = wheel_example, normalized_name = ''foo'', env_scheme = scheme_a,
      cache_packages = ''/cache/packages'', installer_version = ''0.3.0''\<rparr>"

definition cand_b :: candidate where
  "cand_b = cand_a\<lparr>env_scheme := scheme_b\<rparr>"

definition cand_platlib :: candidate where
  "cand_platlib = cand_a\<lparr>wheel := wheel_platlib\<rparr>"

definition world_cache :: world where
  "world_cache =
     \<lparr>files = [([''cache''], Dir), ([''cache'', ''packages''], Dir)],
      home_dir = ''/root'', tmp_dir = ''/tmp'', tmp_names = [], log = [], ledger = [],
      calls = []\<rparr>"

definition fs_written :: filesystem where
  "fs_written =
     [([''env''], Dir), ([''env'', ''lib''], Dir),
      ([''env'', ''lib'', ''easy-install.pth''], File (''/src/foo'' @ LF @ ''/other'' @ LF)),
      ([''env'', ''lib'', ''bar.py''], File ''source''),
      ([''env'', ''lib'', ''bar.pyc''], File ''bytecode''),
      ([''env'', ''lib'', ''keep.txt''], File ''keep''),
      ([''tmp''], Dir),
      ([''env'', ''lib'', ''pkg''], Dir),
      ([''env'', ''lib'', ''pkg'', ''mod.py''], File ''one'')]"

text \<open>The stash step followed by a rollback, the second only when the first returned.\<close>

definition remove_then_rollback :: "remover \<Rightarrow> world \<Rightarrow> outcome" where
  "remove_then_rollback r w =
     (case remove r w of
        (Some e, r', w') \<Rightarrow> (Some e, r', w')
      | (None, r', w') \<Rightarrow> rollback r' w')"

section \<open>Verified properties\<close>

subsection \<open>Archive Reader\<close>

lemma dist_info_dir_none:
  "dist_info_dir names = Inl InvalidWheelSource \<longleftrightarrow> (\<forall>n \<in> set names. \<not> is_dist_info n)"
proof -
  have "filter is_dist_info names = [] \<longleftrightarrow> (\<forall>n \<in> set names. \<not> is_dist_info n)"
    by (simp add: filter_empty_conv)
  then show ?thesis
    by (cases "filter is_dist_info names") (auto simp: dist_info_dir_def)
qed

lemma dist_info_dir_first:
  assumes "\<forall>n \<in> set pre. \<not> is_dist_info n" and "is_dist_info name"
  shows "dist_info_dir (pre @ name # post) = Inr (top_level name)"
proof -
  have "filter is_dist_info pre = []"
    using assms(1) by (simp add: filter_empty_conv)
  then show ?thesis
    using assms(2) by (simp add: dist_info_dir_def)
qed

text \<open>
  C3 (as stated, refuted). The claim makes ambiguity a fatal error. The archive below has two
  different top-level entries ending in \<^verbatim>\<open>.dist-info\<close>, and \<^verbatim>\<open>dist_info_dir\<close> returns
  the first of them instead of failing.
\<close>

theorem dist_info_dir_ambiguous_returns:
  "is_dist_info ''a-1.0.dist-info/METADATA''
   \<and> is_dist_info ''b-1.0.dist-info/METADATA''
   \<and> top_level ''a-1.0.dist-info/METADATA'' \<noteq> top_level ''b-1.0.dist-info/METADATA''
   \<and> dist_info_dir [''a-1.0.dist-info/METADATA'', ''b-1.0.dist-info/METADATA'']
       = Inr ''a-1.0.dist-info''"
  by code_simp

text \<open>
  C3 (amended). Resolution of the metadata directory name fails with
  \<^verbatim>\<open>InvalidWheelSource\<close> exactly when no entry of the archive has a top-level name ending
  in \<^verbatim>\<open>.dist-info\<close>. When at least one entry has, the result is the top-level name of the
  first such entry in archive order, whatever follows it: ambiguity is not detected.
\<close>

theorem dist_info_dir_absent_or_first:
  "(dist_info_dir names = Inl InvalidWheelSource
      \<longleftrightarrow> (\<forall>n \<in> set names. \<not> is_dist_info n))
   \<and> (\<forall>pre name post.
        names = pre @ name # post \<and> (\<forall>n \<in> set pre. \<not> is_dist_info n) \<and> is_dist_info name
        \<longrightarrow> dist_info_dir names = Inr (top_level name))"
  using dist_info_dir_none dist_info_dir_first by blast

theorem dist_info_dir_absent_or_first_witness:
  "dist_info_dir [''foo/__init__.py'', ''foo-1.0.dist-info/RECORD'', ''bar-2.0.dist-info/WHEEL'']
     = Inr ''foo-1.0.dist-info''
   \<and> dist_info_dir [''foo/__init__.py'', ''foo/cli.py''] = Inl InvalidWheelSource"
proof -
  have pre: "\<forall>n \<in> set [''foo/__init__.py'']. \<not> is_dist_info n"
    by code_simp
  have hit: "is_dist_info ''foo-1.0.dist-info/RECORD''"
    by code_simp
  have top: "top_level ''foo-1.0.dist-info/RECORD'' = ''foo-1.0.dist-info''"
    by code_simp
  have none: "\<forall>n \<in> set [''foo/__init__.py'', ''foo/cli.py'']. \<not> is_dist_info n"
    by code_simp
  have "dist_info_dir ([''foo/__init__.py''] @ ''foo-1.0.dist-info/RECORD'' # [''bar-2.0.dist-info/WHEEL''])
          = Inr (top_level ''foo-1.0.dist-info/RECORD'')"
    using dist_info_dir_absent_or_first
      [of "[''foo/__init__.py''] @ ''foo-1.0.dist-info/RECORD'' # [''bar-2.0.dist-info/WHEEL'']"]
      pre hit by blast
  moreover have "dist_info_dir [''foo/__init__.py'', ''foo/cli.py''] = Inl InvalidWheelSource"
    using dist_info_dir_absent_or_first [of "[''foo/__init__.py'', ''foo/cli.py'']"] none by blast
  ultimately show ?thesis
    using top by simp
qed

subsection \<open>Rename Compressor\<close>

lemma update_set_subset: "set (AList.update k v al) \<subseteq> insert (k, v) (set al)"
  by (induction al) auto

lemma diag_update: "diag d \<Longrightarrow> diag (AList.update (normcase p) p d)"
  using update_set_subset [of p p d]
  by (auto simp: diag_def normcase_def distinct_update list_all_iff)

lemma case_map_fold_keys:
  "fst ` set (foldl (\<lambda>d p. AList.update (normcase p) p d) d0 ps) = fst ` set d0 \<union> set ps"
proof (induction ps arbitrary: d0)
  case Nil
  then show ?case by simp
next
  case (Cons p ps)
  show ?case
    using Cons.IH [of "AList.update (normcase p) p d0"] dom_update [of p p d0]
    by (auto simp: normcase_def)
qed

lemma case_map_fold_diag:
  "diag d0 \<Longrightarrow> diag (foldl (\<lambda>d p. AList.update (normcase p) p d) d0 ps)"
  by (induction ps arbitrary: d0) (simp_all add: diag_update)

lemma case_map_diag: "diag (make_case_map ps)"
  using case_map_fold_diag [of "[]" ps] by (simp add: make_case_map_def diag_def)

lemma case_map_keys: "set (map fst (make_case_map ps)) = set ps"
  using case_map_fold_keys [of "[]" ps] by (simp add: make_case_map_def)

lemma diag_snd: "diag d \<Longrightarrow> map snd d = map fst d"
  by (induction d) (auto simp: diag_def)

lemma case_map_values: "set (map snd (make_case_map ps)) = set ps"
  using diag_snd [OF case_map_diag, of ps] case_map_keys [of ps] by simp

lemma diag_lookup: "diag d \<Longrightarrow> k \<in> fst ` set d \<Longrightarrow> map_of d k = Some k"
  by (induction d) (auto simp: diag_def)

lemma case_map_lookup: "k \<in> set ps \<Longrightarrow> map_of (make_case_map ps) k = Some k"
  using diag_lookup [OF case_map_diag, of k ps] case_map_keys [of ps] by simp

lemma getitems_diag:
  "set ks \<subseteq> set ps \<Longrightarrow> getitems (make_case_map ps) ks = Inr ks"
  by (induction ks) (simp_all add: case_map_lookup)

lemma unchecked_set: "set (make_unchecked (make_case_map ps)) = dirname ` set ps"
proof -
  have "set (make_unchecked (make_case_map ps))
          = (\<lambda>p. fst (path_split p)) ` set (map snd (make_case_map ps))"
    unfolding make_unchecked_def by (simp only: set_sort set_remdups set_map)
  then show ?thesis
    by (simp only: case_map_values) (simp add: dirname_def)
qed

lemma already_handled_mono:
  "set wc \<subseteq> set wc' \<Longrightarrow> already_handled wc root \<Longrightarrow> already_handled wc' root"
  by (auto simp: already_handled_def list_ex_iff)

lemma compress_step_cases:
  "compress_step fs (rem, wc) root = (rem, wc)
   \<or> (\<not> already_handled wc root \<and> set (all_files_under fs root) \<subseteq> set rem
      \<and> compress_step fs (rem, wc) root
          = (filter (\<lambda>r. r \<notin> set (all_files_under fs root)) rem, List.insert (root @ sep) wc))"
  by (auto simp: compress_step_def Let_def list_all_iff)

lemma compress_loop_mono:
  "compress_loop fs (rem, wc) roots = (rem', wc') \<Longrightarrow> set wc \<subseteq> set wc' \<and> set rem' \<subseteq> set rem"
proof (induction roots arbitrary: rem wc)
  case Nil
  then show ?case by simp
next
  case (Cons root roots)
  from compress_step_cases [of fs rem wc root] show ?case
  proof
    assume "compress_step fs (rem, wc) root = (rem, wc)"
    with Cons show ?thesis by simp
  next
    assume a: "\<not> already_handled wc root \<and> set (all_files_under fs root) \<subseteq> set rem
      \<and> compress_step fs (rem, wc) root
          = (filter (\<lambda>r. r \<notin> set (all_files_under fs root)) rem, List.insert (root @ sep) wc)"
    with Cons.prems have "compress_loop fs (filter (\<lambda>r. r \<notin> set (all_files_under fs root)) rem, List.insert (root @ sep) wc) roots = (rem', wc')"
      by simp
    from Cons.IH [OF this] show ?thesis by auto
  qed
qed

text \<open>Every wildcard the loop adds belongs to a root whose files were all in the working set.\<close>

lemma compress_loop_wildcards:
  "compress_loop fs (rem, wc) roots = (rem', wc') \<Longrightarrow> w \<in> set wc' \<Longrightarrow>
   w \<in> set wc \<or> (\<exists>root \<in> set roots. w = root @ sep \<and> set (all_files_under fs root) \<subseteq> set rem)"
proof (induction roots arbitrary: rem wc)
  case Nil
  then show ?case by simp
next
  case (Cons root roots)
  from compress_step_cases [of fs rem wc root] show ?case
  proof
    assume "compress_step fs (rem, wc) root = (rem, wc)"
    with Cons.prems have "compress_loop fs (rem, wc) roots = (rem', wc')" by simp
    from Cons.IH [OF this Cons.prems(2)] show ?thesis by auto
  next
    assume a: "\<not> already_handled wc root \<and> set (all_files_under fs root) \<subseteq> set rem
      \<and> compress_step fs (rem, wc) root
          = (filter (\<lambda>r. r \<notin> set (all_files_under fs root)) rem, List.insert (root @ sep) wc)"
    with Cons.prems have "compress_loop fs (filter (\<lambda>r. r \<notin> set (all_files_under fs root)) rem, List.insert (root @ sep) wc) roots = (rem', wc')"
      by simp
    from Cons.IH [OF this Cons.prems(2)] a show ?thesis by auto
  qed
qed

text \<open>Every path that leaves the working set lies under a wildcard of the result.\<close>

lemma compress_loop_covered:
  "compress_loop fs (rem, wc) roots = (rem', wc') \<Longrightarrow> k \<in> set rem \<Longrightarrow> k \<notin> set rem' \<Longrightarrow>
   \<exists>root \<in> set roots. root @ sep \<in> set wc' \<and> k \<in> set (all_files_under fs root)"
proof (induction roots arbitrary: rem wc)
  case Nil
  then show ?case by simp
next
  case (Cons root roots)
  from compress_step_cases [of fs rem wc root] show ?case
  proof
    assume "compress_step fs (rem, wc) root = (rem, wc)"
    with Cons.prems have "compress_loop fs (rem, wc) roots = (rem', wc')" by simp
    from Cons.IH [OF this Cons.prems(2,3)] show ?thesis by auto
  next
    assume a: "\<not> already_handled wc root \<and> set (all_files_under fs root) \<subseteq> set rem
      \<and> compress_step fs (rem, wc) root
          = (filter (\<lambda>r. r \<notin> set (all_files_under fs root)) rem, List.insert (root @ sep) wc)"
    with Cons.prems have l: "compress_loop fs (filter (\<lambda>r. r \<notin> set (all_files_under fs root)) rem, List.insert (root @ sep) wc) roots = (rem', wc')"
      by simp
    show ?thesis
    proof (cases "k \<in> set (all_files_under fs root)")
      case True
      moreover have "root @ sep \<in> set wc'"
        using compress_loop_mono [OF l] by auto
      ultimately show ?thesis by auto
    next
      case False
      with Cons.prems(2) have "k \<in> set (filter (\<lambda>r. r \<notin> set (all_files_under fs root)) rem)"
        by simp
      from Cons.IH [OF l this Cons.prems(3)] show ?thesis by auto
    qed
  qed
qed

text \<open>
  A root that is reached with all its files still in the working set, and that no wildcard
  of the result subsumes, gets its wildcard.
\<close>

lemma compress_loop_wildcarded:
  "compress_loop fs (rem, wc) roots = (rem', wc') \<Longrightarrow> D \<in> set roots \<Longrightarrow>
   \<not> already_handled wc' D \<Longrightarrow> set (all_files_under fs D) \<subseteq> set rem \<Longrightarrow>
   (\<forall>root \<in> set roots. root \<noteq> D \<and> root @ sep \<in> set wc'
       \<longrightarrow> set (all_files_under fs root) \<inter> set (all_files_under fs D) = {}) \<Longrightarrow>
   D @ sep \<in> set wc' \<and> set (all_files_under fs D) \<inter> set rem' = {}"
proof (induction roots arbitrary: rem wc)
  case Nil
  then show ?case by simp
next
  case (Cons root roots)
  obtain rem1 wc1 where st: "compress_step fs (rem, wc) root = (rem1, wc1)"
    by (cases "compress_step fs (rem, wc) root")
  with Cons.prems(1) have l: "compress_loop fs (rem1, wc1) roots = (rem', wc')"
    by simp
  note m = compress_loop_mono [OF l]
  show ?case
  proof (cases "root = D")
    case True
    have "\<not> already_handled wc D"
      using Cons.prems(3) already_handled_mono [of wc wc' D] m compress_loop_mono [OF Cons.prems(1)] by blast
    moreover have "\<forall>f \<in> set (all_files_under fs D). f \<in> set rem"
      using Cons.prems(4) by blast
    ultimately have "compress_step fs (rem, wc) D
        = (filter (\<lambda>r. r \<notin> set (all_files_under fs D)) rem, List.insert (D @ sep) wc)"
      by (simp add: compress_step_def Let_def list_all_iff)
    with True st
    have "rem1 = filter (\<lambda>r. r \<notin> set (all_files_under fs D)) rem" and "wc1 = List.insert (D @ sep) wc"
      by simp_all
    with m show ?thesis by auto
  next
    case False
    with Cons.prems(2) have D: "D \<in> set roots" by simp
    have sub: "set (all_files_under fs D) \<subseteq> set rem1"
    proof -
      from compress_step_cases [of fs rem wc root] show ?thesis
      proof
        assume "compress_step fs (rem, wc) root = (rem, wc)"
        with st Cons.prems(4) show ?thesis by simp
      next
        assume a: "\<not> already_handled wc root \<and> set (all_files_under fs root) \<subseteq> set rem
          \<and> compress_step fs (rem, wc) root
              = (filter (\<lambda>r. r \<notin> set (all_files_under fs root)) rem, List.insert (root @ sep) wc)"
        with st have r: "rem1 = filter (\<lambda>r. r \<notin> set (all_files_under fs root)) rem"
          and w: "wc1 = List.insert (root @ sep) wc" by simp_all
        from w m have "root @ sep \<in> set wc'" by auto
        with Cons.prems(5) False
        have "set (all_files_under fs root) \<inter> set (all_files_under fs D) = {}" by simp
        with r Cons.prems(4) show ?thesis by auto
      qed
    qed
    have "\<forall>root \<in> set roots. root \<noteq> D \<and> root @ sep \<in> set wc'
       \<longrightarrow> set (all_files_under fs root) \<inter> set (all_files_under fs D) = {}"
      using Cons.prems(5) by simp
    from Cons.IH [OF l D Cons.prems(3) sub this] show ?thesis .
  qed
qed


lemma compress_state_split:
  "compress_loop fs (map fst (make_case_map ps), []) (make_unchecked (make_case_map ps))
     = (listed_of fs ps, wildcards_of fs ps)"
  by (simp add: listed_of_def wildcards_of_def compress_state_def Let_def)

lemma listed_subset: "set (listed_of fs ps) \<subseteq> set ps"
  using compress_loop_mono [OF compress_state_split [of fs ps]] case_map_keys [of ps] by simp

lemma compress_for_rename_result:
  "compress_for_rename fs ps = Inr (remdups (listed_of fs ps @ wildcards_of fs ps))"
proof -
  obtain rem wc where st: "compress_state fs ps = (rem, wc)"
    by (cases "compress_state fs ps")
  then have "listed_of fs ps = rem" and "wildcards_of fs ps = wc"
    by (simp_all add: listed_of_def wildcards_of_def)
  moreover from this have "getitems (make_case_map ps) rem = Inr rem"
    using getitems_diag [OF listed_subset [of fs ps]] by simp
  ultimately show ?thesis
    using st by (simp add: compress_for_rename_def)
qed

lemma wildcard_origin:
  assumes "w \<in> set (wildcards_of fs ps)"
  shows "\<exists>root \<in> dirname ` set ps. w = root @ sep \<and> set (all_files_under fs root) \<subseteq> set ps"
  using compress_loop_wildcards [OF compress_state_split assms]
    unchecked_set [of ps] case_map_keys [of ps] by auto

lemma input_covered:
  assumes "p \<in> set ps" and "p \<notin> set (listed_of fs ps)"
  shows "\<exists>root \<in> dirname ` set ps.
           root @ sep \<in> set (wildcards_of fs ps) \<and> p \<in> set (all_files_under fs root)"
proof -
  have "p \<in> set (map fst (make_case_map ps))"
    using assms(1) case_map_keys [of ps] by simp
  from compress_loop_covered [OF compress_state_split this assms(2)] show ?thesis
    using unchecked_set [of ps] by auto
qed

text \<open>
  C10. For every input, the compressor returns a result (the dictionary lookup never
  fails). Every entry of the result is an input path in its original spelling, or the
  parent directory of an input path followed by the separator. Every input path is in the
  result, or is one of the files found on disk under a directory whose wildcard is in the
  result.
\<close>

theorem compress_for_rename_covers_input:
  "\<exists>out. compress_for_rename fs ps = Inr out
     \<and> (\<forall>e \<in> set out. e \<in> set ps
           \<or> (endswith e sep \<and> (\<exists>p \<in> set ps. e = dirname p @ sep)))
     \<and> (\<forall>p \<in> set ps. p \<in> set out
           \<or> (\<exists>root. root @ sep \<in> set out \<and> p \<in> set (all_files_under fs root)))"
proof -
  let ?out = "remdups (listed_of fs ps @ wildcards_of fs ps)"
  have 1: "compress_for_rename fs ps = Inr ?out"
    by (rule compress_for_rename_result)
  have 2: "\<forall>e \<in> set ?out. e \<in> set ps
           \<or> (endswith e sep \<and> (\<exists>p \<in> set ps. e = dirname p @ sep))"
  proof
    fix e assume "e \<in> set ?out"
    then consider "e \<in> set (listed_of fs ps)" | "e \<in> set (wildcards_of fs ps)"
      by auto
    then show "e \<in> set ps \<or> (endswith e sep \<and> (\<exists>p \<in> set ps. e = dirname p @ sep))"
    proof cases
      case 1
      then show ?thesis using listed_subset [of fs ps] by blast
    next
      case 2
      from wildcard_origin [OF this] show ?thesis
        by (auto simp: endswith_def suffix_def)
    qed
  qed
  have 3: "\<forall>p \<in> set ps. p \<in> set ?out
           \<or> (\<exists>root. root @ sep \<in> set ?out \<and> p \<in> set (all_files_under fs root))"
  proof
    fix p assume p: "p \<in> set ps"
    show "p \<in> set ?out \<or> (\<exists>root. root @ sep \<in> set ?out \<and> p \<in> set (all_files_under fs root))"
    proof (cases "p \<in> set (listed_of fs ps)")
      case True
      then show ?thesis by simp
    next
      case False
      from input_covered [OF p False] show ?thesis by auto
    qed
  qed
  from 1 2 3 show ?thesis by blast
qed

theorem compress_for_rename_covers_input_witness:
  "compress_for_rename fs_extra [''/a/b/x'', ''/a/z'', ''/q/r.pyo''] = Inr [''/q/r.pyo'', ''/q/'', ''/a/'']
   \<and> (''/a/z'' \<in> set [''/q/r.pyo'', ''/q/'', ''/a/'']
      \<or> (\<exists>root. root @ sep \<in> set [''/q/r.pyo'', ''/q/'', ''/a/'']
             \<and> ''/a/z'' \<in> set (all_files_under fs_extra root)))
   \<and> ''/a/z'' \<in> set (all_files_under fs_extra ''/a'')"
proof -
  let ?ps = "[''/a/b/x'', ''/a/z'', ''/q/r.pyo'']"
  obtain out where out: "compress_for_rename fs_extra ?ps = Inr out"
    and cov: "\<forall>p \<in> set ?ps. p \<in> set out
           \<or> (\<exists>root. root @ sep \<in> set out \<and> p \<in> set (all_files_under fs_extra root))"
    using compress_for_rename_covers_input [of fs_extra ?ps] by blast
  have ev: "compress_for_rename fs_extra ?ps = Inr [''/q/r.pyo'', ''/q/'', ''/a/'']"
    by code_simp
  with out have o: "out = [''/q/r.pyo'', ''/q/'', ''/a/'']" by simp
  have "''/a/z'' \<in> set ?ps" by simp
  with cov have "''/a/z'' \<in> set out
      \<or> (\<exists>root. root @ sep \<in> set out \<and> ''/a/z'' \<in> set (all_files_under fs_extra root))"
    by blast
  moreover have "''/a/z'' \<in> set (all_files_under fs_extra ''/a'')"
    by code_simp
  ultimately show ?thesis using ev o by simp
qed

text \<open>
  C2 (as stated, refuted). First half: on \<^const>\<open>fs_nested\<close> the input holds every file on
  disk under \<^verbatim>\<open>/a\<close>, yet the result has no wildcard for \<^verbatim>\<open>/a\<close>: only parents of input
  paths are examined, and the result is the wildcard of \<^verbatim>\<open>/a/b\<close>. Second half: on
  \<^const>\<open>fs_extra\<close> the file \<^verbatim>\<open>/a/z\<close> under \<^verbatim>\<open>/a\<close> is missing from the input, yet the
  input's file under \<^verbatim>\<open>/a\<close> does not remain listed: it is replaced by the wildcard of the
  sub-directory.
\<close>

theorem compress_for_rename_not_every_directory:
  "all_files_under fs_nested ''/a'' = [''/a/b/x'']
   \<and> compress_for_rename fs_nested [''/a/b/x''] = Inr [''/a/b/'']
   \<and> ''/a/'' \<notin> set [''/a/b/'']
   \<and> ''/a/z'' \<in> set (all_files_under fs_extra ''/a'')
   \<and> ''/a/b/x'' \<in> set (all_files_under fs_extra ''/a'')
   \<and> compress_for_rename fs_extra [''/a/b/x''] = Inr [''/a/b/'']
   \<and> ''/a/b/x'' \<notin> set [''/a/b/'']"
  by code_simp

text \<open>
  C2 (amended). The result is the still-listed paths together with the wildcards. First
  half: for a directory \<open>D\<close> that is the parent of an input path, that no wildcard of the
  result subsumes, and that shares no file with another wildcarded directory: if the input
  holds every file on disk under \<open>D\<close>, then the wildcard \<open>D\<close> plus separator is produced and
  none of the files under \<open>D\<close> stays listed. Second half: for any directory \<open>D\<close> with a
  file on disk that the input lacks, no wildcard is produced for \<open>D\<close>, and each file under
  \<open>D\<close> that the input holds stays listed or lies under the wildcard of another directory.
\<close>

theorem compress_for_rename_wildcard_iff_complete:
  "compress_for_rename fs ps = Inr (remdups (listed_of fs ps @ wildcards_of fs ps))
   \<and> (D \<in> dirname ` set ps \<and> set (all_files_under fs D) \<subseteq> set ps
        \<and> \<not> already_handled (wildcards_of fs ps) D
        \<and> (\<forall>root \<in> dirname ` set ps.
              root \<noteq> D \<and> root @ sep \<in> set (wildcards_of fs ps)
              \<longrightarrow> set (all_files_under fs root) \<inter> set (all_files_under fs D) = {})
      \<longrightarrow> D @ sep \<in> set (wildcards_of fs ps)
          \<and> set (all_files_under fs D) \<inter> set (listed_of fs ps) = {})
   \<and> (\<not> set (all_files_under fs D) \<subseteq> set ps
      \<longrightarrow> D @ sep \<notin> set (wildcards_of fs ps)
          \<and> (\<forall>f \<in> set (all_files_under fs D) \<inter> set ps.
                f \<in> set (listed_of fs ps)
                \<or> (\<exists>root. root \<noteq> D \<and> root @ sep \<in> set (wildcards_of fs ps)
                      \<and> f \<in> set (all_files_under fs root))))"
proof -
  have 1: "compress_for_rename fs ps = Inr (remdups (listed_of fs ps @ wildcards_of fs ps))"
    by (rule compress_for_rename_result)
  have 2: "D @ sep \<in> set (wildcards_of fs ps)
          \<and> set (all_files_under fs D) \<inter> set (listed_of fs ps) = {}"
    if a: "D \<in> dirname ` set ps" "set (all_files_under fs D) \<subseteq> set ps"
        "\<not> already_handled (wildcards_of fs ps) D"
        "\<forall>root \<in> dirname ` set ps.
              root \<noteq> D \<and> root @ sep \<in> set (wildcards_of fs ps)
              \<longrightarrow> set (all_files_under fs root) \<inter> set (all_files_under fs D) = {}"
  proof -
    have D: "D \<in> set (make_unchecked (make_case_map ps))"
      using a(1) unchecked_set [of ps] by simp
    have sub: "set (all_files_under fs D) \<subseteq> set (map fst (make_case_map ps))"
      using a(2) case_map_keys [of ps] by simp
    have dis: "\<forall>root \<in> set (make_unchecked (make_case_map ps)).
              root \<noteq> D \<and> root @ sep \<in> set (wildcards_of fs ps)
              \<longrightarrow> set (all_files_under fs root) \<inter> set (all_files_under fs D) = {}"
      using a(4) unchecked_set [of ps] by simp
    from compress_loop_wildcarded [OF compress_state_split D a(3) sub dis] show ?thesis .
  qed
  have 3: "D @ sep \<notin> set (wildcards_of fs ps)
          \<and> (\<forall>f \<in> set (all_files_under fs D) \<inter> set ps.
                f \<in> set (listed_of fs ps)
                \<or> (\<exists>root. root \<noteq> D \<and> root @ sep \<in> set (wildcards_of fs ps)
                      \<and> f \<in> set (all_files_under fs root)))"
    if b: "\<not> set (all_files_under fs D) \<subseteq> set ps"
  proof -
    have nw: "D @ sep \<notin> set (wildcards_of fs ps)"
    proof
      assume "D @ sep \<in> set (wildcards_of fs ps)"
      from wildcard_origin [OF this] b show False by auto
    qed
    have "f \<in> set (listed_of fs ps)
                \<or> (\<exists>root. root \<noteq> D \<and> root @ sep \<in> set (wildcards_of fs ps)
                      \<and> f \<in> set (all_files_under fs root))"
      if f: "f \<in> set (all_files_under fs D) \<inter> set ps" for f
    proof (cases "f \<in> set (listed_of fs ps)")
      case True
      then show ?thesis by simp
    next
      case False
      from f have "f \<in> set ps" by simp
      from input_covered [OF this False] obtain root
        where r: "root @ sep \<in> set (wildcards_of fs ps)" "f \<in> set (all_files_under fs root)"
        by blast
      with nw have "root \<noteq> D" by auto
      with r show ?thesis by blast
    qed
    with nw show ?thesis by blast
  qed
  from 1 2 3 show ?thesis by blast
qed

theorem compress_for_rename_wildcard_iff_complete_witness:
  "''/a/b/'' \<in> set (wildcards_of fs_nested [''/a/b/x''])
   \<and> set (all_files_under fs_nested ''/a/b'') \<inter> set (listed_of fs_nested [''/a/b/x'']) = {}
   \<and> ''/a/'' \<notin> set (wildcards_of fs_extra [''/a/b/x''])"
proof -
  have h1: "''/a/b'' \<in> dirname ` set [''/a/b/x'']"
    by code_simp
  have h2: "set (all_files_under fs_nested ''/a/b'') \<subseteq> set [''/a/b/x'']"
    by code_simp
  have h3: "\<not> already_handled (wildcards_of fs_nested [''/a/b/x'']) ''/a/b''"
    by code_simp
  have h4: "\<forall>root \<in> dirname ` set [''/a/b/x''].
              root \<noteq> ''/a/b'' \<and> root @ sep \<in> set (wildcards_of fs_nested [''/a/b/x''])
              \<longrightarrow> set (all_files_under fs_nested root) \<inter> set (all_files_under fs_nested ''/a/b'') = {}"
    by code_simp
  have h5: "\<not> set (all_files_under fs_extra ''/a'') \<subseteq> set [''/a/b/x'']"
    by code_simp
  have "''/a/b'' @ sep \<in> set (wildcards_of fs_nested [''/a/b/x''])
        \<and> set (all_files_under fs_nested ''/a/b'') \<inter> set (listed_of fs_nested [''/a/b/x'']) = {}"
    using compress_for_rename_wildcard_iff_complete [of fs_nested "[''/a/b/x'']" "''/a/b''"]
      h1 h2 h3 h4 by blast
  moreover have "''/a'' @ sep \<notin> set (wildcards_of fs_extra [''/a/b/x''])"
    using compress_for_rename_wildcard_iff_complete [of fs_extra "[''/a/b/x'']" "''/a''"] h5
    by blast
  ultimately show ?thesis by (simp add: sep_def)
qed

subsection \<open>Transactional Remover\<close>

text \<open>
  C1 (the code departs from the claim). A plan whose stash step changes the registry file
  but stashes no file: in \<open>world_example\<close> a plan of one registry line and no path, and in
  \<open>world_link\<close> the plan \<^verbatim>\<open>from_dist\<close> builds for the link install, whose pointer file is
  outside the prefix and is therefore skipped. In both the stash step returns normally and
  rewrites the registry file, and the rollback that follows returns at its first test,
  \<^verbatim>\<open>if not self._stashed\<close>, with the registry file still rewritten.
\<close>

theorem rollback_leaves_registry_rewritten:
  "read_bytes (files world_example) ''/env/lib/easy-install.pth''
     = Inr (''/src/foo'' @ LF @ ''/other'' @ LF)
   \<and> (case remove (add_pth (new_remover dist_example env_example) ''/src/foo'') world_example of
        (e, r, w) \<Rightarrow> (e, stashed r, saved_pth r, read_bytes (files w) ''/env/lib/easy-install.pth''))
     = (None, [], Some (''/src/foo'' @ LF @ ''/other'' @ LF), Inr (''/other'' @ LF))
   \<and> (case remove_then_rollback (add_pth (new_remover dist_example env_example) ''/src/foo'')
             world_example of
        (e, r, w) \<Rightarrow> (e, read_bytes (files w) ''/env/lib/easy-install.pth'', log w))
     = (None, Inr (''/other'' @ LF),
        [(Debug, ''Removing pth entry: /src/foo''),
         (Error, ''Can't rollback, not uninstalled yet'')])
   \<and> (case from_dist dist_link env_split world_link of
        (Inl e, w) \<Rightarrow> None
      | (Inr r, w) \<Rightarrow> Some (paths r, pth_entries r))
     = Some ([''/site/foo.egg-link''], [''/src/foo''])
   \<and> (case from_dist dist_link env_split world_link of
        (Inl e, w) \<Rightarrow> None
      | (Inr r, w) \<Rightarrow>
          (case remove_then_rollback r w of
             (e, r', w') \<Rightarrow> Some (e, read_bytes (files w') ''/site/easy-install.pth'')))
     = Some (None, Inr (''/other'' @ LF))"
  by code_simp

text \<open>
  When a file has been stashed, the same rollback does restore the registry file and the
  stashed files.
\<close>

lemma rollback_restores_example:
  "(case remove_then_rollback
           ((new_remover dist_example env_example)
              \<lparr>paths := [''/env/lib/bar.py''], pth_entries := [''/other'']\<rparr>) world_example of
      (e, r, w) \<Rightarrow>
        (e, read_bytes (files w) ''/env/lib/easy-install.pth'',
         read_bytes (files w) ''/env/lib/bar.py''))
   = (None, Inr (''/src/foo'' @ LF @ ''/other'' @ LF), Inr ''source'')"
  by code_simp

text \<open>
  C4 (the code departs from the claim). The plan \<^verbatim>\<open>from_dist\<close> builds for \<^verbatim>\<open>bar\<close> in
  \<open>world_example\<close> holds the source file, its legacy byte-code file and the \<^verbatim>\<open>.pyo\<close> name.
  The stash step moves \<^verbatim>\<open>bar.py\<close>, deletes \<^verbatim>\<open>bar.pyc\<close>, and then, having no
  \<^verbatim>\<open>continue\<close> after the deletion, tries to move the deleted file and raises
  \<^verbatim>\<open>FileNotFoundError\<close>: it does not complete.
\<close>

theorem stash_files_raises_after_pyc:
  "(case from_dist dist_example env_example world_example of
      (Inl e, w) \<Rightarrow> None
    | (Inr r, w) \<Rightarrow> Some (paths r))
     = Some [''/env/lib/bar.py'', ''/env/lib/bar.pyc'', ''/env/lib/bar.pyo'']
   \<and> compress_for_rename fs_example [''/env/lib/bar.py'', ''/env/lib/bar.pyc'', ''/env/lib/bar.pyo'']
     = Inr [''/env/lib/bar.py'', ''/env/lib/bar.pyc'', ''/env/lib/bar.pyo'']
   \<and> (case from_dist dist_example env_example world_example of
        (Inl e, w) \<Rightarrow> None
      | (Inr r, w) \<Rightarrow>
          (case remove r w of
             (e, r', w') \<Rightarrow>
               Some (e, stashed r', exists (files w') ''/env/lib/bar.pyc'')))
     = Some (Some FileNotFoundError,
             [(''/env/lib/bar.py'', ''/tmp/pdm-aaaa-uninstall/bar.py'')], False)"
  by code_simp

text \<open>
  C5. Rollback with an empty stash record returns without an exception, leaves the
  remover, the file system (the registry file with it) and the ledger as they are, and
  reports the error on the log.
\<close>

theorem rollback_before_stash_is_noop:
  assumes "stashed r = []"
  shows "rollback r w = (None, r, w\<lparr>log := log w @ [(Error, ''Can't rollback, not uninstalled yet'')]\<rparr>)
         \<and> files (snd (snd (rollback r w))) = files w
         \<and> ledger (snd (snd (rollback r w))) = ledger w"
  using assms by (simp add: rollback_def logger_def)

theorem rollback_before_stash_is_noop_witness:
  "stashed (new_remover dist_example env_example) = []
   \<and> rollback (new_remover dist_example env_example) world_example
       = (None, new_remover dist_example env_example,
          world_example\<lparr>log := [(Error, ''Can't rollback, not uninstalled yet'')]\<rparr>)
   \<and> files (snd (snd (rollback (new_remover dist_example env_example) world_example))) = fs_example"
proof -
  have h: "stashed (new_remover dist_example env_example) = []"
    by (simp add: new_remover_def)
  from rollback_before_stash_is_noop [OF h, of world_example] h show ?thesis
    by (simp add: world_example_def)
qed

subsection \<open>Removal Planner\<close>

text \<open>
  C9. For a link-mode distribution whose pointer file exists and whose first line, stripped,
  differs from the recorded location of the distribution, \<^verbatim>\<open>from_dist\<close> raises
  \<^verbatim>\<open>UninstallError\<close>: no plan is returned, so nothing has been added to a removal set, and
  the world (file system, registry file, ledger, log) is as it was.
\<close>

theorem from_dist_pointer_mismatch_aborts:
  assumes "editable d"
    and "get_egg_link_path (files w) d (purelib e) = Some egg_link_path"
    and "read_bytes (files w) egg_link_path = Inr c"
    and "first_line c = Inr line"
    and "normcase (strip line) \<noteq> location d"
  shows "from_dist d e w = (Inl UninstallError, w)"
  using assms by (simp add: from_dist_def link_stage_def Let_def)

theorem from_dist_pointer_mismatch_aborts_witness:
  "editable dist_moved
   \<and> get_egg_link_path (files world_link) dist_moved (purelib env_split) = Some ''/site/foo.egg-link''
   \<and> read_bytes (files world_link) ''/site/foo.egg-link'' = Inr (''/src/foo'' @ LF @ ''.'')
   \<and> first_line (''/src/foo'' @ LF @ ''.'') = Inr ''/src/foo''
   \<and> normcase (strip ''/src/foo'') \<noteq> location dist_moved
   \<and> from_dist dist_moved env_split world_link = (Inl UninstallError, world_link)"
proof -
  have h1: "editable dist_moved"
    by code_simp
  have h2: "get_egg_link_path (files world_link) dist_moved (purelib env_split) = Some ''/site/foo.egg-link''"
    by code_simp
  have h3: "read_bytes (files world_link) ''/site/foo.egg-link'' = Inr (''/src/foo'' @ LF @ ''.'')"
    by code_simp
  have h4: "first_line (''/src/foo'' @ LF @ ''.'') = Inr ''/src/foo''"
    by code_simp
  have h5: "normcase (strip ''/src/foo'') \<noteq> location dist_moved"
    by code_simp
  from from_dist_pointer_mismatch_aborts [OF h1 h2 h3 h4 h5] h1 h2 h3 h4 h5 show ?thesis
    by simp
qed

subsection \<open>Scheme Destination\<close>

lemma map_of_fs_remove: "map_of (fs_remove k fs) k' = (if k' = k then None else map_of fs k')"
  by (induction fs) (auto simp: fs_remove_def)

lemma map_of_fs_put: "map_of (fs_put k n fs) k' = (if k' = k then Some n else map_of fs k')"
  by (simp add: fs_put_def map_of_append map_add_def map_of_fs_remove split: option.splits)

lemma node_at_fs_remove:
  "k \<noteq> [] \<Longrightarrow> node_at (fs_remove k fs) k' = (if k' = k then None else node_at fs k')"
  by (simp add: node_at_def map_of_fs_remove)

lemma node_at_fs_put:
  "k \<noteq> [] \<Longrightarrow> node_at (fs_put k n fs) k' = (if k' = k then Some n else node_at fs k')"
  by (simp add: node_at_def map_of_fs_put)

lemma node_at_add_dirs:
  "node_at (add_dirs fs ks) k =
     (if node_at fs k \<noteq> None then node_at fs k else if k \<in> set ks then Some Dir else None)"
proof (induction ks arbitrary: fs)
  case Nil
  then show ?case by simp
next
  case (Cons a ks)
  show ?case
  proof (cases "node_at fs a = None")
    case True
    then have "a \<noteq> []" by (auto simp: node_at_def)
    with True Cons.IH [of "fs_put a Dir fs"] show ?thesis
      by (auto simp: node_at_fs_put)
  next
    case False
    with Cons.IH [of fs] show ?thesis by auto
  qed
qed

lemma makedirs_result:
  assumes "makedirs fs p = Inr fs'"
  shows "stat fs' p = Some Dir"
    and "node_at fs' k = node_at fs k \<or> (node_at fs k = None \<and> node_at fs' k = Some Dir)"
proof -
  from assms have p: "p \<noteq> []" and absent: "node_at fs (key p) = None"
    and fs': "fs' = add_dirs fs (prefixes (key p))"
    by (auto simp: makedirs_def split: if_splits)
  have "node_at fs' (key p) = Some Dir"
    using absent by (simp add: fs' node_at_add_dirs)
  with p show "stat fs' p = Some Dir"
    by (simp add: stat_def)
  show "node_at fs' k = node_at fs k \<or> (node_at fs k = None \<and> node_at fs' k = Some Dir)"
    by (auto simp: fs' node_at_add_dirs)
qed

lemma stat_cong:
  "node_at fs (key p) = node_at fs' (key p) \<Longrightarrow> stat fs p = stat fs' p"
  by (simp add: stat_def)

lemma entries_at_fs_put: "entries_at (fs_put (key p) n fs) p = 1"
proof -
  have "filter (\<lambda>(k, n). k = key p) (fs_remove (key p) fs) = []"
    by (auto simp: fs_remove_def filter_empty_conv)
  then show ?thesis
    by (simp add: entries_at_def fs_put_def)
qed

text \<open>What a successful write through the library method says about the file system.\<close>

lemma super_write_to_fs_success:
  assumes "super_write_to_fs sd fs0 scheme p s = Inr (e, fs')" and "map_of sd scheme = Some root"
  shows "\<exists>fsA. fs' = fs_put (key (join2 root p)) (File s) fsA
           \<and> join2 root p \<noteq> [] \<and> \<not> endswith (join2 root p) sep
           \<and> key (join2 root p) \<noteq> []
           \<and> node_at fsA (butlast (key (join2 root p))) = Some Dir
           \<and> exists fsA (dirname (join2 root p))
           \<and> node_at fsA (key (join2 root p)) = None"
proof -
  let ?t = "join2 root p"
  from assms have ne: "\<not> exists fs0 ?t"
    by (auto simp: super_write_to_fs_def Let_def split: if_splits)
  obtain fsA where A: "(if \<not> exists fs0 (dirname ?t) then makedirs fs0 (dirname ?t) else Inr fs0) = Inr fsA"
    and wr: "write_bytes fsA ?t s = Inr fs'"
    using assms ne by (auto simp: super_write_to_fs_def Let_def split: sum.splits)
  from wr have t: "?t \<noteq> []" "\<not> endswith ?t sep" "node_at fsA (key ?t) \<noteq> Some Dir"
    "parent_is_dir fsA (key ?t)" and fs': "fs' = fs_put (key ?t) (File s) fsA"
    by (auto simp: write_bytes_def split: if_splits)
  from ne t(1,2) have n0: "node_at fs0 (key ?t) = None"
    by (auto simp: exists_def stat_def split: option.splits node.splits)
  have ex: "exists fsA (dirname ?t)" and nA: "node_at fsA (key ?t) = None"
  proof -
    show "exists fsA (dirname ?t)"
    proof (cases "exists fs0 (dirname ?t)")
      case True
      with A show ?thesis by simp
    next
      case False
      with A have "makedirs fs0 (dirname ?t) = Inr fsA" by simp
      from makedirs_result(1) [OF this] show ?thesis by (simp add: exists_def)
    qed
    show "node_at fsA (key ?t) = None"
    proof (cases "exists fs0 (dirname ?t)")
      case True
      with A n0 show ?thesis by simp
    next
      case False
      with A have "makedirs fs0 (dirname ?t) = Inr fsA" by simp
      from makedirs_result(2) [OF this, of "key ?t"] n0 t(3) show ?thesis by auto
    qed
  qed
  from t(4) have "key ?t \<noteq> []" "node_at fsA (butlast (key ?t)) = Some Dir"
    by (simp_all add: parent_is_dir_def)
  with fs' t(1,2) ex nA show ?thesis by blast
qed

lemma write_to_fs_success:
  assumes "write_to_fs sd fs scheme p s = Inr (e, fs')" and "map_of sd scheme = Some root"
  shows "\<exists>fs0. super_write_to_fs sd fs0 scheme p s = Inr (e, fs')"
  using assms by (auto simp: write_to_fs_def Let_def split: sum.splits if_splits)

text \<open>
  C8. When a write through \<^verbatim>\<open>InstallDestination.write_to_fs\<close> has succeeded, a second
  write with the same scheme root and relative path succeeds too: the file of the first
  write is unlinked and the stream of the second is written. Afterwards the file system
  holds exactly one entry at the target location, its bytes are those of the second write,
  and every other location is as the first write left it.
\<close>

theorem write_to_fs_twice:
  assumes "write_to_fs sd fs scheme p s1 = Inr (e1, fs1)" and "map_of sd scheme = Some root"
  shows "\<exists>e2 fs2. write_to_fs sd fs1 scheme p s2 = Inr (e2, fs2)
           \<and> read_bytes fs2 (join2 root p) = Inr s2
           \<and> entries_at fs2 (join2 root p) = 1
           \<and> (\<forall>k. k \<noteq> key (join2 root p) \<longrightarrow> map_of fs2 k = map_of fs1 k)"
proof -
  let ?t = "join2 root p" and ?k = "key (join2 root p)"
  from write_to_fs_success [OF assms] obtain fs0
    where "super_write_to_fs sd fs0 scheme p s1 = Inr (e1, fs1)" by blast
  from super_write_to_fs_success [OF this assms(2)] obtain fsA
    where fs1: "fs1 = fs_put ?k (File s1) fsA"
      and t: "?t \<noteq> []" "\<not> endswith ?t sep" "?k \<noteq> []"
      and par: "node_at fsA (butlast ?k) = Some Dir"
      and ex: "exists fsA (dirname ?t)"
      and nA: "node_at fsA ?k = None"
    by blast
  let ?fsB = "fs_remove ?k fs1"
  let ?fs2 = "fs_put ?k (File s2) ?fsB"
  have at1: "node_at fs1 ?k = Some (File s1)"
    using t(3) by (simp add: fs1 node_at_fs_put)
  then have un: "path_exists fs1 ?t" "path_unlink fs1 ?t = Inr ?fsB"
    by (simp_all add: path_exists_def path_unlink_def)
  have nB: "node_at ?fsB ?k = None"
    using t(3) by (simp add: node_at_fs_remove)
  then have neB: "\<not> exists ?fsB ?t"
    by (simp add: exists_def stat_def)
  have other: "node_at ?fsB k' = node_at fsA k'" if "k' \<noteq> ?k" for k'
    using that t(3) by (simp add: fs1 node_at_fs_remove node_at_fs_put)
  have kd: "key (dirname ?t) \<noteq> ?k"
    using ex nA by (auto simp: exists_def stat_def split: if_splits)
  have exB: "exists ?fsB (dirname ?t)"
    using ex stat_cong [of ?fsB "dirname ?t" fsA] other [OF kd] by (simp add: exists_def)
  have bl: "butlast ?k \<noteq> ?k"
    using t(3) by (metis append_butlast_last_id append_self_conv snoc_eq_iff_butlast)
  have parB: "parent_is_dir ?fsB ?k"
    using par other [OF bl] t(3) by (simp add: parent_is_dir_def)
  have wr: "write_bytes ?fsB ?t s2 = Inr ?fs2"
    using t nB parB by (simp add: write_bytes_def)
  have sup: "super_write_to_fs sd ?fsB scheme p s2
               = Inr (RecordEntry p (Some (Hash s2)) (Some (length s2)), ?fs2)"
    using assms(2) neB exB wr by (simp add: super_write_to_fs_def Let_def)
  have w2: "write_to_fs sd fs1 scheme p s2
               = Inr (RecordEntry p (Some (Hash s2)) (Some (length s2)), ?fs2)"
    using assms(2) un sup by (simp add: write_to_fs_def Let_def)
  have rd: "read_bytes ?fs2 ?t = Inr s2"
    using t by (simp add: read_bytes_def stat_def node_at_fs_put)
  have cnt: "entries_at ?fs2 ?t = 1"
    by (rule entries_at_fs_put)
  have oth: "\<forall>k. k \<noteq> ?k \<longrightarrow> map_of ?fs2 k = map_of fs1 k"
    by (simp add: map_of_fs_put map_of_fs_remove)
  from w2 rd cnt oth show ?thesis by blast
qed

theorem write_to_fs_twice_witness:
  "write_to_fs [(''purelib'', ''/env/lib'')] fs_example ''purelib'' ''pkg/mod.py'' ''one''
     = Inr (RecordEntry ''pkg/mod.py'' (Some (Hash ''one'')) (Some 3), fs_written)
   \<and> map_of [(''purelib'', ''/env/lib'')] ''purelib'' = Some ''/env/lib''
   \<and> (\<exists>e2 fs2. write_to_fs [(''purelib'', ''/env/lib'')] fs_written ''purelib'' ''pkg/mod.py'' ''two''
                   = Inr (e2, fs2)
         \<and> read_bytes fs2 ''/env/lib/pkg/mod.py'' = Inr ''two''
         \<and> entries_at fs2 ''/env/lib/pkg/mod.py'' = 1)"
proof -
  have h1: "write_to_fs [(''purelib'', ''/env/lib'')] fs_example ''purelib'' ''pkg/mod.py'' ''one''
     = Inr (RecordEntry ''pkg/mod.py'' (Some (Hash ''one'')) (Some 3), fs_written)"
    by code_simp
  have h2: "map_of [(''purelib'', ''/env/lib'')] ''purelib'' = Some ''/env/lib''"
    by simp
  have h3: "join2 ''/env/lib'' ''pkg/mod.py'' = ''/env/lib/pkg/mod.py''"
    by code_simp
  from write_to_fs_twice [OF h1 h2, of "''two''"] h3
  have "\<exists>e2 fs2. write_to_fs [(''purelib'', ''/env/lib'')] fs_written ''purelib'' ''pkg/mod.py'' ''two''
                   = Inr (e2, fs2)
         \<and> read_bytes fs2 ''/env/lib/pkg/mod.py'' = Inr ''two''
         \<and> entries_at fs2 ''/env/lib/pkg/mod.py'' = 1"
    by auto
  with h1 h2 show ?thesis by blast
qed

subsection \<open>Direct and Cached Installer\<close>

lemma record_call_simps [simp]:
  "files (record_call c w) = files w" "calls (record_call c w) = calls w @ [c]"
  "ledger (record_call c w) = ledger w"
  by (simp_all add: record_call_def)

lemma add_referrer_simps [simp]:
  "files (add_referrer p i w) = files w" "calls (add_referrer p i w) = calls w"
  by (simp_all add: add_referrer_def)

lemma logger_simps [simp]:
  "files (logger l m w) = files w" "calls (logger l m w) = calls w"
  by (simp_all add: logger_def)

lemma write_scripts_fold:
  "files (foldl (\<lambda>w' ep. case ep of (name, module, attr, section) \<Rightarrow>
                   record_call (WriteScript sd name module attr section) w') w eps) = files w
   \<and> calls (foldl (\<lambda>w' ep. case ep of (name, module, attr, section) \<Rightarrow>
                   record_call (WriteScript sd name module attr section) w') w eps)
     = calls w @ map (\<lambda>(name, module, attr, section). WriteScript sd name module attr section) eps"
  by (induction eps arbitrary: w) (auto split: prod.splits)

lemma write_scripts_effect:
  "files (write_scripts sd src w) = files w"
  "calls (write_scripts sd src w) = calls w @ script_calls sd src"
  using write_scripts_fold [of sd w]
  by (auto simp: write_scripts_def script_calls_def split: option.splits)

lemma copy_loop_effect:
  "copy_loop sd src di rfp cs written w = (e, written', w') \<Longrightarrow>
   files w' = files w \<and> calls w' = calls w @ copy_calls sd src di rfp cs"
proof (induction cs arbitrary: written w)
  case Nil
  then show ?case by simp
next
  case (Cons a cs)
  obtain p s where a: "a = (p, s)" by (cases a)
  show ?case
  proof (cases "is_copied di rfp p")
    case False
    with Cons.prems a have "copy_loop sd src di rfp cs written w = (e, written', w')" by simp
    from Cons.IH [OF this] False a show ?thesis by simp
  next
    case True
    show ?thesis
    proof (cases "determine_scheme src p")
      case (Inl err)
      with Cons.prems a True show ?thesis by simp
    next
      case (Inr sp)
      obtain sch dp where sp: "sp = (sch, dp)" by (cases sp)
      with Cons.prems a True Inr
      have "copy_loop sd src di rfp cs (written @ [write_file_row dp s])
              (record_call (WriteFile sd sch dp s) w) = (e, written', w')" by simp
      from Cons.IH [OF this] True a Inr sp show ?thesis by simp
    qed
  qed
qed

lemma metadata_loop_effect:
  "metadata_loop sd root di md written w = (written', w') \<Longrightarrow>
   files w' = files w
   \<and> calls w' = calls w @ map (\<lambda>(filename, cont). WriteFile sd root (join2 di filename) cont) md"
proof (induction md arbitrary: written w)
  case Nil
  then show ?case by simp
next
  case (Cons a md)
  obtain f c where a: "a = (f, c)" by (cases a)
  with Cons.prems
  have "metadata_loop sd root di md (written @ [write_file_row (join2 di f) c])
          (record_call (WriteFile sd root (join2 di f) c) w) = (written', w')" by simp
  from Cons.IH [OF this] a show ?case by simp
qed


text \<open>The calls of a link install that returns.\<close>

lemma install_from_cache_calls:
  assumes "install_from_cache c pc w = (None, w')"
    and "root_scheme (wheel c) = Inr root"
    and "dist_info_dir (namelist (wheel c)) = Inr di"
    and "pointer_content pc = Inr pointer"
  shows "\<exists>records. calls w' = calls w @ script_calls (env_scheme c) (wheel c)
           @ copy_calls (env_scheme c) (wheel c) di (join2 di ''RECORD'') (contents (wheel c))
           @ [WriteFile (env_scheme c) root (pointer_name c) pointer]
           @ map (\<lambda>(filename, cont). WriteFile (env_scheme c) root (join2 di filename) cont)
               (additional_metadata c pc)
           @ [Finalize (env_scheme c) root (join2 di ''RECORD'') records]"
proof -
  let ?sd = "env_scheme c" and ?src = "wheel c" and ?rfp = "join2 di ''RECORD''"
  let ?w1 = "write_scripts ?sd ?src w"
  obtain e2 written w2 where cl: "copy_loop ?sd ?src di ?rfp (contents ?src) [] ?w1 = (e2, written, w2)"
    by (cases "copy_loop ?sd ?src di ?rfp (contents ?src) [] ?w1") auto
  with assms have e2: "e2 = None"
    by (auto simp: install_from_cache_def Let_def split: option.splits)
  let ?w3 = "record_call (WriteFile ?sd root (pointer_name c) pointer) w2"
  obtain written4 w4 where ml: "metadata_loop ?sd root di (additional_metadata c pc)
        (written @ [write_file_row (pointer_name c) pointer]) ?w3 = (written4, w4)"
    by (cases "metadata_loop ?sd root di (additional_metadata c pc)
        (written @ [write_file_row (pointer_name c) pointer]) ?w3") auto
  from assms cl e2 ml
  have w': "w' = add_referrer (cache_path pc) di
                  (record_call (Finalize ?sd root ?rfp (written4 @ [RecordEntry ?rfp None None])) w4)"
    by (simp add: install_from_cache_def Let_def)
  note c1 = copy_loop_effect [OF cl] and m1 = metadata_loop_effect [OF ml]
  have "calls w' = calls w @ script_calls ?sd ?src
           @ copy_calls ?sd ?src di ?rfp (contents ?src)
           @ [WriteFile ?sd root (pointer_name c) pointer]
           @ map (\<lambda>(filename, cont). WriteFile ?sd root (join2 di filename) cont)
               (additional_metadata c pc)
           @ [Finalize ?sd root ?rfp (written4 @ [RecordEntry ?rfp None None])]"
    using c1 m1 by (simp add: w' write_scripts_effect)
  then show ?thesis by blast
qed

text \<open>A link install, whatever its outcome, leaves the file system alone and never calls
  the library's \<^verbatim>\<open>install\<close>.\<close>

lemma script_calls_no_install: "filter is_lib_install (script_calls sd src) = []"
  by (auto simp: script_calls_def is_lib_install_def filter_empty_conv split: option.splits)

lemma copy_calls_no_install: "filter is_lib_install (copy_calls sd src di rfp cs) = []"
  by (induction sd src di rfp cs rule: copy_calls.induct)
     (auto simp: is_lib_install_def split: sum.splits)

lemma install_from_cache_no_install:
  assumes "install_from_cache c pc w = (e, w')"
  shows "files w' = files w \<and> lib_installs w' = lib_installs w"
proof (cases "root_scheme (wheel c)")
  case (Inl err)
  with assms show ?thesis by (simp add: install_from_cache_def Let_def)
next
  case root: (Inr root)
  show ?thesis
  proof (cases "dist_info_dir (namelist (wheel c))")
    case (Inl err)
    with assms root show ?thesis by (simp add: install_from_cache_def Let_def)
  next
    case di: (Inr di)
    let ?sd = "env_scheme c" and ?src = "wheel c" and ?rfp = "join2 di ''RECORD''"
    let ?w1 = "write_scripts ?sd ?src w"
    obtain e2 written w2 where cl: "copy_loop ?sd ?src di ?rfp (contents ?src) [] ?w1 = (e2, written, w2)"
      by (cases "copy_loop ?sd ?src di ?rfp (contents ?src) [] ?w1") auto
    note c1 = copy_loop_effect [OF cl]
    have w2: "files w2 = files w \<and> lib_installs w2 = lib_installs w"
      using c1 by (simp add: lib_installs_def write_scripts_effect script_calls_no_install
          copy_calls_no_install)
    show ?thesis
    proof (cases e2)
      case (Some err)
      with assms root di cl have "w' = w2" by (simp add: install_from_cache_def Let_def)
      with w2 show ?thesis by simp
    next
      case None
      show ?thesis
      proof (cases "pointer_content pc")
        case (Inl err)
        with assms root di cl None have "w' = w2" by (simp add: install_from_cache_def Let_def)
        with w2 show ?thesis by simp
      next
        case (Inr pointer)
        let ?w3 = "record_call (WriteFile ?sd root (pointer_name c) pointer) w2"
        obtain written4 w4 where ml: "metadata_loop ?sd root di (additional_metadata c pc)
              (written @ [write_file_row (pointer_name c) pointer]) ?w3 = (written4, w4)"
          by (cases "metadata_loop ?sd root di (additional_metadata c pc)
              (written @ [write_file_row (pointer_name c) pointer]) ?w3") auto
        from assms root di cl None Inr ml
        have w': "w' = add_referrer (cache_path pc) di
                  (record_call (Finalize ?sd root ?rfp (written4 @ [RecordEntry ?rfp None None])) w4)"
          by (simp add: install_from_cache_def Let_def)
        note m1 = metadata_loop_effect [OF ml]
        have "filter is_lib_install (map (\<lambda>(filename, cont). WriteFile ?sd root (join2 di filename) cont)
               (additional_metadata c pc)) = []"
          by (auto simp: filter_empty_conv is_lib_install_def)
        with m1 w2 show ?thesis
          by (simp add: w' lib_installs_def is_lib_install_def)
      qed
    qed
  qed
qed

lemma path_mkdir_exist_ok_is_dir:
  assumes "path_mkdir_exist_ok fs p = Inr fs'"
  shows "path_is_dir fs' p"
proof (cases "node_at fs (key p)")
  case None
  then have "key p \<noteq> []" by (auto simp: node_at_def)
  with assms None show ?thesis
    by (auto simp: path_mkdir_exist_ok_def path_is_dir_def node_at_fs_put split: if_splits)
next
  case (Some n)
  with assms show ?thesis
    by (cases n) (auto simp: path_mkdir_exist_ok_def path_is_dir_def)
qed

lemma CachedPackage_scheme_nonempty: "cache_scheme (CachedPackage p) \<noteq> []"
  by (simp add: CachedPackage_def)

lemma install_wheel_with_cache_present:
  assumes "install_wheel_with_cache c sch w = (e, w')" and "path_is_dir (files w) (cache_path_of c)"
  shows "files w' = files w \<and> lib_installs w' = lib_installs w"
  using assms install_from_cache_no_install [of c "CachedPackage (cache_path_of c)" w e w']
  by (simp add: install_wheel_with_cache_def Let_def)

lemma install_wheel_with_cache_absent:
  assumes "install_wheel_with_cache c sch w = (None, w')" and "\<not> path_is_dir (files w) (cache_path_of c)"
  shows "path_is_dir (files w') (cache_path_of c) \<and> lib_installs w' = lib_installs w @ [the_install c]"
proof -
  let ?cp = "cache_path_of c" and ?pc = "CachedPackage (cache_path_of c)"
  let ?w1 = "logger Debug (''Installing wheel into cached location '' @ ?cp) w"
  from assms obtain fs' where mk: "path_mkdir_exist_ok (files ?w1) ?cp = Inr fs'"
    by (auto simp: install_wheel_with_cache_def Let_def split: sum.splits)
  from assms mk obtain w2 where iw: "install_wheel c (Some (cache_scheme ?pc)) (?w1\<lparr>files := fs'\<rparr>) = (None, w2)"
    and ic: "install_from_cache c ?pc w2 = (None, w')"
    by (auto simp: install_wheel_with_cache_def Let_def split: sum.splits prod.splits option.splits)
  from iw have w2: "w2 = record_call (the_install c) (?w1\<lparr>files := fs'\<rparr>)"
    by (auto simp: install_wheel_def Let_def the_install_def CachedPackage_scheme_nonempty
        split: sum.splits)
  from install_from_cache_no_install [OF ic] w2
  have "files w' = fs'" and "lib_installs w' = lib_installs w @ [the_install c]"
    by (simp_all add: lib_installs_def the_install_def is_lib_install_def logger_def record_call_def)
  with path_mkdir_exist_ok_is_dir [OF mk] show ?thesis by simp
qed

lemma install_wheel_with_cache_is_dir:
  assumes "install_wheel_with_cache c sch w = (None, w')"
  shows "path_is_dir (files w') (cache_path_of c)"
  using install_wheel_with_cache_present [OF assms] install_wheel_with_cache_absent [OF assms]
  by (cases "path_is_dir (files w) (cache_path_of c)") auto

lemma install_all_present:
  "install_all cs w = (e, w') \<Longrightarrow> \<forall>c \<in> set cs. cache_path_of c = cp \<Longrightarrow>
   path_is_dir (files w) cp \<Longrightarrow> lib_installs w' = lib_installs w"
proof (induction cs arbitrary: w)
  case Nil
  then show ?case by simp
next
  case (Cons c cs)
  obtain e1 w1 where s: "install_wheel_with_cache c None w = (e1, w1)"
    by (cases "install_wheel_with_cache c None w")
  from Cons.prems have cp: "cache_path_of c = cp" by simp
  note p = install_wheel_with_cache_present [OF s]
  show ?case
  proof (cases e1)
    case (Some err)
    with Cons.prems s p cp show ?thesis by simp
  next
    case None
    with Cons.prems s have "install_all cs w1 = (e, w')" by simp
    from Cons.IH [OF this] Cons.prems p cp show ?thesis by simp
  qed
qed

lemma install_all_absent:
  assumes "install_all (c # cs) w = (None, w')" and "\<forall>c' \<in> set (c # cs). cache_path_of c' = cp"
    and "\<not> path_is_dir (files w) cp"
  shows "lib_installs w' = lib_installs w @ [the_install c]"
proof -
  obtain e1 w1 where s: "install_wheel_with_cache c None w = (e1, w1)"
    by (cases "install_wheel_with_cache c None w")
  with assms(1) have e1: "e1 = None" and rest: "install_all cs w1 = (None, w')"
    by (auto split: option.splits)
  from assms(2) have cp: "cache_path_of c = cp" by simp
  from install_wheel_with_cache_absent [of c None w w1] s e1 assms(3) cp
  have "path_is_dir (files w1) cp" and "lib_installs w1 = lib_installs w @ [the_install c]"
    by simp_all
  with install_all_present [OF rest, of cp] assms(2) show ?thesis by simp
qed

lemma copy_calls_origin:
  "call \<in> set (copy_calls sd src di rfp cs) \<Longrightarrow>
   \<exists>p s sch dp. (p, s) \<in> set cs \<and> is_copied di rfp p
      \<and> determine_scheme src p = Inr (sch, dp) \<and> call = WriteFile sd sch dp s"
proof (induction sd src di rfp cs rule: copy_calls.induct)
  case (1 sd src di rfp)
  then show ?case by simp
next
  case (2 sd src di rfp p s rest)
  show ?case
  proof (cases "is_copied di rfp p")
    case False
    with 2 show ?thesis by auto
  next
    case True
    show ?thesis
    proof (cases "determine_scheme src p")
      case (Inl e)
      with 2 True show ?thesis by simp
    next
      case (Inr sp)
      obtain sch dp where sp: "sp = (sch, dp)" by (cases sp)
      from "2.prems" True Inr sp
      consider "call = WriteFile sd sch dp s" | "call \<in> set (copy_calls sd src di rfp rest)"
        by auto
      then show ?thesis
      proof cases
        case 1
        with True Inr sp show ?thesis by auto
      next
        case 2
        from "2.IH"(2) [OF _ Inr sp[symmetric] 2] True show ?thesis by auto
      qed
    qed
  qed
qed

lemma copy_calls_write_file: "filter is_write_file (copy_calls sd src di rfp cs) = copy_calls sd src di rfp cs"
  by (induction sd src di rfp cs rule: copy_calls.induct)
     (auto simp: is_write_file_def split: sum.splits)

lemma script_calls_not_write_file: "filter is_write_file (script_calls sd src) = []"
  by (auto simp: script_calls_def is_write_file_def filter_empty_conv split: option.splits)

lemma script_calls_not_pth: "filter is_pth_write (script_calls sd src) = []"
  by (auto simp: script_calls_def is_pth_write_def filter_empty_conv split: option.splits)

lemma not_pth_suffix:
  "length t \<ge> 4 \<Longrightarrow> \<not> suffix ''.pth'' t \<Longrightarrow> suffix ''.pth'' (x @ t) \<Longrightarrow> False"
proof -
  assume len: "length t \<ge> 4" and ns: "\<not> suffix ''.pth'' t" and s: "suffix ''.pth'' (x @ t)"
  from s ns obtain xs' where eq: "''.pth'' = xs' @ t" and "suffix xs' x"
    by (auto simp: suffix_append)
  from eq have "length ''.pth'' = length xs' + length t"
    by (metis length_append)
  then have "4 = length xs' + length t" by simp
  with len have "length xs' = 0" by arith
  then have "xs' = []" by simp
  with eq ns show False by simp
qed

lemma metadata_not_pth:
  "\<not> endswith (join2 di ''INSTALLER'') ''.pth''" "\<not> endswith (join2 di ''REFER_TO'') ''.pth''"
proof -
  have a: "\<not> suffix ''.pth'' ''INSTALLER''" "\<not> suffix ''.pth'' ''/INSTALLER''"
    and b: "\<not> suffix ''.pth'' ''REFER_TO''" "\<not> suffix ''.pth'' ''/REFER_TO''"
    by (simp_all add: suffix_to_prefix)
  show "\<not> endswith (join2 di ''INSTALLER'') ''.pth''"
    using not_pth_suffix [OF _ a(1), of di] not_pth_suffix [OF _ a(2), of di] a(1)
    by (auto simp: join2_def endswith_def startswith_def sep_def)
  show "\<not> endswith (join2 di ''REFER_TO'') ''.pth''"
    using not_pth_suffix [OF _ b(1), of di] not_pth_suffix [OF _ b(2), of di] b(1)
    by (auto simp: join2_def endswith_def startswith_def sep_def)
qed

lemma pointer_is_pth: "is_pth_write (WriteFile sd root (pointer_name c) pointer)"
  by (simp add: is_pth_write_def pointer_name_def endswith_def suffix_def)

lemma install_from_cache_success:
  assumes "install_from_cache c pc w = (None, w')"
  obtains root di pointer where "root_scheme (wheel c) = Inr root"
    and "dist_info_dir (namelist (wheel c)) = Inr di" and "pointer_content pc = Inr pointer"
proof -
  from assms obtain root where r: "root_scheme (wheel c) = Inr root"
    by (cases "root_scheme (wheel c)") (auto simp: install_from_cache_def Let_def)
  from assms r obtain di where d: "dist_info_dir (namelist (wheel c)) = Inr di"
    by (cases "dist_info_dir (namelist (wheel c))") (auto simp: install_from_cache_def Let_def)
  from assms r d obtain pointer where "pointer_content pc = Inr pointer"
    by (cases "pointer_content pc")
       (auto simp: install_from_cache_def Let_def split: prod.splits option.splits)
  with r d that show ?thesis by blast
qed

lemma install_from_cache_footprint:
  assumes "install_from_cache c pc w = (None, w')" and "call \<in> set (new_calls w w')"
  shows "footprint_call c call"
proof -
  from install_from_cache_success [OF assms(1)] obtain root di pointer
    where r: "root_scheme (wheel c) = Inr root"
      and d: "dist_info_dir (namelist (wheel c)) = Inr di"
      and p: "pointer_content pc = Inr pointer"
    by blast
  from install_from_cache_calls [OF assms(1) r d p] obtain records
    where nc: "new_calls w w' = script_calls (env_scheme c) (wheel c)
           @ copy_calls (env_scheme c) (wheel c) di (join2 di ''RECORD'') (contents (wheel c))
           @ [WriteFile (env_scheme c) root (pointer_name c) pointer]
           @ map (\<lambda>(filename, cont). WriteFile (env_scheme c) root (join2 di filename) cont)
               (additional_metadata c pc)
           @ [Finalize (env_scheme c) root (join2 di ''RECORD'') records]"
    by (auto simp: new_calls_def)
  from assms(2) have "call \<in> set (script_calls (env_scheme c) (wheel c))
      \<or> call \<in> set (copy_calls (env_scheme c) (wheel c) di (join2 di ''RECORD'') (contents (wheel c)))
      \<or> call = WriteFile (env_scheme c) root (pointer_name c) pointer
      \<or> call \<in> set (map (\<lambda>(filename, cont). WriteFile (env_scheme c) root (join2 di filename) cont)
               (additional_metadata c pc))
      \<or> call = Finalize (env_scheme c) root (join2 di ''RECORD'') records"
    unfolding nc by (simp only: set_append set_simps Un_iff insert_iff empty_iff) blast
  then consider
      (script) "call \<in> set (script_calls (env_scheme c) (wheel c))"
    | (copy) "call \<in> set (copy_calls (env_scheme c) (wheel c) di (join2 di ''RECORD'') (contents (wheel c)))"
    | (pointer) "call = WriteFile (env_scheme c) root (pointer_name c) pointer"
    | (meta) "call \<in> set (map (\<lambda>(filename, cont). WriteFile (env_scheme c) root (join2 di filename) cont)
               (additional_metadata c pc))"
    | (final) "call = Finalize (env_scheme c) root (join2 di ''RECORD'') records"
    by blast
  then show ?thesis
  proof cases
    case script
    then show ?thesis
      by (auto simp: script_calls_def footprint_call_def d split: option.splits)
  next
    case copy
    from copy_calls_origin [OF this] obtain p s sch dp
      where "(p, s) \<in> set (contents (wheel c))" "is_copied di (join2 di ''RECORD'') p"
        "determine_scheme (wheel c) p = Inr (sch, dp)" "call = WriteFile (env_scheme c) sch dp s"
      by blast
    then show ?thesis
      by (auto simp: footprint_call_def d list_ex_iff is_copied_def)
  next
    case pointer
    then show ?thesis by (simp add: footprint_call_def d)
  next
    case meta
    then show ?thesis by (auto simp: footprint_call_def d additional_metadata_def)
  next
    case final
    then show ?thesis by (simp add: footprint_call_def d)
  qed
qed

lemma new_calls_append: "calls w' = calls w @ xs \<Longrightarrow> new_calls w w' = xs"
  by (simp add: new_calls_def)

lemma install_from_cache_extends:
  assumes "install_from_cache c pc w = (None, w')"
  shows "calls w' = calls w @ new_calls w w'"
proof -
  from install_from_cache_success [OF assms] obtain root di pointer
    where r: "root_scheme (wheel c) = Inr root"
      and d: "dist_info_dir (namelist (wheel c)) = Inr di"
      and p: "pointer_content pc = Inr pointer"
    by blast
  from install_from_cache_calls [OF assms r d p] show ?thesis
    by (auto simp: new_calls_def)
qed

lemma install_wheel_with_cache_footprint:
  assumes "install_wheel_with_cache c sch w = (None, w')" and "call \<in> set (new_calls w w')"
  shows "footprint_call c call \<or> call = the_install c"
proof (cases "path_is_dir (files w) (cache_path_of c)")
  case True
  with assms(1) have "install_from_cache c (CachedPackage (cache_path_of c)) w = (None, w')"
    by (simp add: install_wheel_with_cache_def Let_def)
  from install_from_cache_footprint [OF this assms(2)] show ?thesis by simp
next
  case False
  let ?cp = "cache_path_of c" and ?pc = "CachedPackage (cache_path_of c)"
  let ?w1 = "logger Debug (''Installing wheel into cached location '' @ ?cp) w"
  from assms(1) False obtain fs' where mk: "path_mkdir_exist_ok (files ?w1) ?cp = Inr fs'"
    by (auto simp: install_wheel_with_cache_def Let_def split: sum.splits)
  from assms(1) False mk obtain w2
    where iw: "install_wheel c (Some (cache_scheme ?pc)) (?w1\<lparr>files := fs'\<rparr>) = (None, w2)"
      and ic: "install_from_cache c ?pc w2 = (None, w')"
    by (auto simp: install_wheel_with_cache_def Let_def split: sum.splits prod.splits option.splits)
  from iw have w2: "calls w2 = calls w @ [the_install c]"
    by (auto simp: install_wheel_def Let_def the_install_def CachedPackage_scheme_nonempty
        logger_def record_call_def split: sum.splits)
  from install_from_cache_extends [OF ic] w2
  have "new_calls w w' = the_install c # new_calls w2 w'"
    by (simp add: new_calls_def [of w])
  with assms(2) consider "call = the_install c" | "call \<in> set (new_calls w2 w')"
    by auto
  then show ?thesis
  proof cases
    case 1
    then show ?thesis by simp
  next
    case 2
    from install_from_cache_footprint [OF ic 2] show ?thesis by simp
  qed
qed

text \<open>
  C6. The library's \<^verbatim>\<open>install\<close> is called into the scheme of the cache entry only when the
  directory of the cache entry does not exist: whatever the outcome, no such call is made
  when it exists, and a cached install that returns has made exactly one when it did not.
  Consequently, installing into a non-empty list of environments that share the cache entry,
  when every install returns, makes exactly one such call if the cache entry did not exist
  and none if it did. Every other call of a cached install that returns belongs to the
  footprint of the environment: generated scripts, the pointer file, metadata files,
  copies of the archive's \<^verbatim>\<open>.pth\<close> and metadata entries, and the manifest.
\<close>

theorem cached_install_materializes_once:
  "(install_wheel_with_cache c sch w = (e, w1) \<and> path_is_dir (files w) (cache_path_of c)
      \<longrightarrow> lib_installs w1 = lib_installs w)
   \<and> (install_wheel_with_cache c sch w = (None, w1) \<and> \<not> path_is_dir (files w) (cache_path_of c)
      \<longrightarrow> lib_installs w1 = lib_installs w @ [the_install c])
   \<and> (install_all (c # cs) w = (None, w') \<and> (\<forall>c' \<in> set cs. cache_path_of c' = cache_path_of c)
      \<longrightarrow> lib_installs w' = lib_installs w
            @ (if path_is_dir (files w) (cache_path_of c) then [] else [the_install c]))
   \<and> (install_wheel_with_cache c sch w = (None, w1)
      \<longrightarrow> (\<forall>call \<in> set (new_calls w w1). footprint_call c call \<or> call = the_install c))"
proof -
  have 1: "lib_installs w1 = lib_installs w"
    if "install_wheel_with_cache c sch w = (e, w1)" "path_is_dir (files w) (cache_path_of c)"
    using install_wheel_with_cache_present [OF that] by simp
  have 2: "lib_installs w1 = lib_installs w @ [the_install c]"
    if "install_wheel_with_cache c sch w = (None, w1)" "\<not> path_is_dir (files w) (cache_path_of c)"
    using install_wheel_with_cache_absent [OF that] by simp
  have 3: "lib_installs w' = lib_installs w
            @ (if path_is_dir (files w) (cache_path_of c) then [] else [the_install c])"
    if a: "install_all (c # cs) w = (None, w')" "\<forall>c' \<in> set cs. cache_path_of c' = cache_path_of c"
  proof -
    from a(2) have all: "\<forall>c' \<in> set (c # cs). cache_path_of c' = cache_path_of c" by simp
    show ?thesis
    proof (cases "path_is_dir (files w) (cache_path_of c)")
      case True
      with install_all_present [OF a(1) all True] show ?thesis by simp
    next
      case False
      with install_all_absent [OF a(1) all False] show ?thesis by simp
    qed
  qed
  have 4: "\<forall>call \<in> set (new_calls w w1). footprint_call c call \<or> call = the_install c"
    if "install_wheel_with_cache c sch w = (None, w1)"
    using install_wheel_with_cache_footprint [OF that] by blast
  from 1 2 3 4 show ?thesis by blast
qed

theorem cached_install_materializes_once_witness:
  "fst (install_all [cand_a, cand_b] world_cache) = None
   \<and> cache_path_of cand_b = cache_path_of cand_a
   \<and> \<not> path_is_dir (files world_cache) (cache_path_of cand_a)
   \<and> lib_installs (snd (install_all [cand_a, cand_b] world_cache)) = [the_install cand_a]"
proof -
  have h1: "fst (install_all [cand_a, cand_b] world_cache) = None"
    by code_simp
  then have h1': "install_all (cand_a # [cand_b]) world_cache
                    = (None, snd (install_all [cand_a, cand_b] world_cache))"
    by (metis prod.collapse)
  have h2: "\<forall>c' \<in> set [cand_b]. cache_path_of c' = cache_path_of cand_a"
    by code_simp
  have h3: "\<not> path_is_dir (files world_cache) (cache_path_of cand_a)"
    by code_simp
  have h4: "lib_installs world_cache = []"
    by code_simp
  from cached_install_materializes_once
         [of cand_a None world_cache None "snd (install_all [cand_a, cand_b] world_cache)"
             "[cand_b]" "snd (install_all [cand_a, cand_b] world_cache)"]
    h1' h2 h3 h4
  have "lib_installs (snd (install_all [cand_a, cand_b] world_cache)) = [the_install cand_a]"
    by simp
  with h1 h2 h3 show ?thesis by simp
qed

text \<open>
  C7 (as stated, refuted). The archive of \<open>cand_a\<close> has a \<^verbatim>\<open>.pth\<close> entry of its own: the
  link install writes two \<^verbatim>\<open>.pth\<close> files into the pure-library root. The archive of
  \<open>cand_platlib\<close> declares the platform-library root: the pointer file is written there and
  no \<^verbatim>\<open>.pth\<close> file is written into the pure-library root.
\<close>

theorem link_install_two_pth_files:
  "filter is_pth_write
     (calls (snd (install_from_cache cand_a (CachedPackage (cache_path_of cand_a)) world_cache)))
   = [WriteFile scheme_a ''purelib'' ''foo_extra.pth'' (''/opt/extra'' @ LF),
      WriteFile scheme_a ''purelib'' ''foo.pth'' (''/cache/packages/foo-1.0-py3-none-any/lib'' @ LF)]
   \<and> filter is_pth_write
     (calls (snd (install_from_cache cand_platlib (CachedPackage (cache_path_of cand_platlib)) world_cache)))
   = [WriteFile scheme_a ''platlib'' ''foo.pth''
        (''/cache/packages/foo-1.0-cp39-cp39-linux_x86_64/lib'' @ LF)]"
  by code_simp

text \<open>
  C7 (amended). A link install that returns writes, through \<^verbatim>\<open>write_file\<close>, these files
  with a path ending in \<^verbatim>\<open>.pth\<close>, in this order: the copies of the archive entries the copy
  loop selects, and last the pointer file, named by the normalised name of the candidate,
  into the archive's root scheme, its content being the pure-library directory of the cache
  entry followed by a line feed.
\<close>

theorem link_install_pth_writes:
  assumes "install_from_cache c pc w = (None, w')"
    and "root_scheme (wheel c) = Inr root"
    and "dist_info_dir (namelist (wheel c)) = Inr di"
    and "map_of (cache_scheme pc) ''purelib'' = Some lib_path"
  shows "filter is_pth_write (new_calls w w')
         = filter is_pth_write
             (copy_calls (env_scheme c) (wheel c) di (join2 di ''RECORD'') (contents (wheel c)))
           @ [WriteFile (env_scheme c) root (pointer_name c) (lib_path @ LF)]"
proof -
  have pc: "pointer_content pc = Inr (lib_path @ LF)"
    using assms(4) by (simp add: pointer_content_def)
  from install_from_cache_calls [OF assms(1-3) pc] obtain records
    where "new_calls w w' = script_calls (env_scheme c) (wheel c)
           @ copy_calls (env_scheme c) (wheel c) di (join2 di ''RECORD'') (contents (wheel c))
           @ [WriteFile (env_scheme c) root (pointer_name c) (lib_path @ LF)]
           @ map (\<lambda>(filename, cont). WriteFile (env_scheme c) root (join2 di filename) cont)
               (additional_metadata c pc)
           @ [Finalize (env_scheme c) root (join2 di ''RECORD'') records]"
    by (auto simp: new_calls_def)
  then show ?thesis
    using pointer_is_pth [of "env_scheme c" root c "lib_path @ LF"] metadata_not_pth [of di]
    by (simp add: script_calls_not_pth additional_metadata_def)
       (simp add: is_pth_write_def)
qed

theorem link_install_pth_writes_witness:
  "fst (install_from_cache cand_platlib (CachedPackage (cache_path_of cand_platlib)) world_cache) = None
   \<and> root_scheme (wheel cand_platlib) = Inr ''platlib''
   \<and> dist_info_dir (namelist (wheel cand_platlib)) = Inr ''foo-1.0.dist-info''
   \<and> map_of (cache_scheme (CachedPackage (cache_path_of cand_platlib))) ''purelib''
       = Some ''/cache/packages/foo-1.0-cp39-cp39-linux_x86_64/lib''
   \<and> filter is_pth_write
        (new_calls world_cache
           (snd (install_from_cache cand_platlib (CachedPackage (cache_path_of cand_platlib)) world_cache)))
       = [WriteFile scheme_a ''platlib'' ''foo.pth''
            (''/cache/packages/foo-1.0-cp39-cp39-linux_x86_64/lib'' @ LF)]"
proof -
  let ?pc = "CachedPackage (cache_path_of cand_platlib)"
  let ?w' = "snd (install_from_cache cand_platlib ?pc world_cache)"
  have h1: "fst (install_from_cache cand_platlib ?pc world_cache) = None"
    by code_simp
  then have h1': "install_from_cache cand_platlib ?pc world_cache = (None, ?w')"
    by (metis prod.collapse)
  have h2: "root_scheme (wheel cand_platlib) = Inr ''platlib''"
    by code_simp
  have h3: "dist_info_dir (namelist (wheel cand_platlib)) = Inr ''foo-1.0.dist-info''"
    by code_simp
  have h4: "map_of (cache_scheme ?pc) ''purelib''
              = Some ''/cache/packages/foo-1.0-cp39-cp39-linux_x86_64/lib''"
    by code_simp
  have h5: "filter is_pth_write
              (copy_calls (env_scheme cand_platlib) (wheel cand_platlib) ''foo-1.0.dist-info''
                 (join2 ''foo-1.0.dist-info'' ''RECORD'') (contents (wheel cand_platlib))) = []"
    by code_simp
  have h6: "env_scheme cand_platlib = scheme_a" "pointer_name cand_platlib = ''foo.pth''"
    by code_simp+
  from link_install_pth_writes [OF h1' h2 h3 h4] h5 h6
  have "filter is_pth_write (new_calls world_cache ?w')
       = [WriteFile scheme_a ''platlib'' ''foo.pth''
            (''/cache/packages/foo-1.0-cp39-cp39-linux_x86_64/lib'' @ LF)]"
    by simp
  with h1 h2 h3 h4 show ?thesis by simp
qed

end
